theory Spec2Isabelle
  imports Main "HOL-Library.Word"
begin

unbundle bit_operations_syntax

section \<open>Strings and numbers of the host language\<close>

text \<open>
  A JavaScript string is a sequence of UTF-16 code units; \<open>charCodeAt\<close> reads one of them,
  \<open>length\<close> counts them and \<open>split('')\<close> cuts between them.  Strings that come from a
  client are therefore lists of 16-bit words.  Strings that the server builds from ASCII
  literals and digits (digests, messages) are HOL strings; \<open>js\<close> embeds them.
\<close>

type_synonym jstring = "16 word list"

definition js :: "string \<Rightarrow> jstring" where
  "js s = map (\<lambda>c. of_nat (of_char c)) s"

text \<open>
  \<open>Number.prototype.toString(radix)\<close> on an integer value: the digits, most significant
  first, and a minus sign in front of a negative number.
\<close>

definition digit_char :: "nat \<Rightarrow> char" where
  "digit_char d = ''0123456789abcdefghijklmnopqrstuvwxyz'' ! d"

function radix_digits :: "nat \<Rightarrow> nat \<Rightarrow> string" where
  "radix_digits b n =
     (if b < 2 \<or> n < b then [digit_char n]
      else radix_digits b (n div b) @ [digit_char (n mod b)])"
  by pat_completeness auto
termination
  by (relation "measure snd") auto

declare radix_digits.simps [simp del]

definition number_toString :: "nat \<Rightarrow> int \<Rightarrow> string" where
  "number_toString radix i =
     (if i < 0 then CHR ''-'' # radix_digits radix (nat (- i))
      else radix_digits radix (nat i))"

definition padStart :: "nat \<Rightarrow> char \<Rightarrow> string \<Rightarrow> string" where
  "padStart n c s = replicate (n - length s) c @ s"

section \<open>Passcode hasher (\<open>hashCode\<close> in lib/auth.ts)\<close>

text \<open>
  One round of either loop: \<open>hash = ((hash << 5) - hash) + char; hash = hash & hash\<close>.
  The shift yields a 32-bit integer, the subtraction and the addition are exact on doubles
  (the operands stay far below \<open>2^53\<close>), and \<open>hash & hash\<close> reduces the sum to a 32-bit
  two's complement integer again, so the accumulator is a 32-bit word whose arithmetic
  wraps around; \<open>sint\<close> reads the signed value that JavaScript sees.
\<close>

definition hash_step :: "32 word \<Rightarrow> 16 word \<Rightarrow> 32 word" where
  "hash_step hash char = (let h = (push_bit 5 hash - hash) + ucast char in h AND h)"

definition salted :: "jstring \<Rightarrow> jstring" where
  "salted code =
     js ''kanban_'' @ js (number_toString 10 (sint (foldl hash_step 0 code))) @ js ''_'' @ rev code"

definition finalHash :: "jstring \<Rightarrow> 32 word" where
  "finalHash code = foldl hash_step 0 (salted code)"

definition hashCode :: "jstring \<Rightarrow> string" where
  "hashCode code = padStart 8 CHR ''0'' (number_toString 16 \<bar>sint (finalHash code)\<bar>)"

definition is_hex :: "char \<Rightarrow> bool" where
  "is_hex c = (c \<in> set ''0123456789abcdef'')"

section \<open>Data model (db/schema.ts) and the store\<close>

text \<open>
  Timestamps are milliseconds since the epoch.  The two tables are lists of rows in
  insertion order.  The \<open>id\<close> and \<open>passcode_id\<close> columns have type \<open>uuid\<close>, a
  128-bit value.  Each awaited drizzle query is one store call; \<open>faults\<close> schedules the
  coming store calls, \<open>True\<close> for a call that throws (a lost connection, a timeout), and
  calls beyond the schedule succeed.  Nothing in lib/auth.ts catches, so the first exception
  ends the request in the route's \<open>catch\<close>; rows written before it stay written, since
  no transaction is opened.
\<close>

type_synonym uuid = "128 word"

record passcode =
  pid :: uuid
  code :: string
  name :: jstring
  isAdmin :: bool
  createdAt :: int
  lastUsedAt :: "int option"

record session =
  sid :: uuid
  passcodeId :: uuid
  token :: jstring
  expiresAt :: int
  sessionCreatedAt :: int

record db =
  passcodes :: "passcode list"
  sessions :: "session list"
  faults :: "bool list"

datatype exn = StoreError | BodyError

type_synonym 'a io = "db \<Rightarrow> (exn + 'a) \<times> db"

definition return_io :: "'a \<Rightarrow> 'a io" where
  "return_io a d = (Inr a, d)"

definition bind_io :: "'a io \<Rightarrow> ('a \<Rightarrow> 'b io) \<Rightarrow> 'b io" where
  "bind_io m f d = (case m d of (Inl e, d') \<Rightarrow> (Inl e, d') | (Inr a, d') \<Rightarrow> f a d')"

definition store_call :: "'a io \<Rightarrow> 'a io" where
  "store_call q d =
     (case faults d of
        [] \<Rightarrow> q d
      | fails # later \<Rightarrow>
          if fails then (Inl StoreError, d\<lparr>faults := later\<rparr>) else q (d\<lparr>faults := later\<rparr>))"

text \<open>
  What the store does with a parameter that a client supplies.  A \<open>text\<close> parameter
  must not hold the code unit 0, or the query throws.  Texts travel to the store in UTF-8
  and are compared there byte by byte, which is equality of code units for strings in which
  every surrogate is paired (\<open>well_formed\<close>); a cookie value and a path segment are such
  strings, since the framework hands them over URL-decoded.  A parameter compared with a
  \<open>uuid\<close> column is read by PostgreSQL's input function for that type, and the query
  throws when it rejects the text: an optional opening brace, sixteen pairs of hexadecimal
  digits in either case, an optional hyphen after every fourth digit but the last, the closing
  brace if there was an opening one, and nothing else.
\<close>

definition text_ok :: "jstring \<Rightarrow> bool" where
  "text_ok s = (0 \<notin> set s)"

definition high_surrogate :: "16 word \<Rightarrow> bool" where
  "high_surrogate c = (55296 \<le> c \<and> c \<le> 56319)"

definition low_surrogate :: "16 word \<Rightarrow> bool" where
  "low_surrogate c = (56320 \<le> c \<and> c \<le> 57343)"

fun well_formed :: "jstring \<Rightarrow> bool" where
  "well_formed [] = True"
| "well_formed [a] = (\<not> high_surrogate a \<and> \<not> low_surrogate a)"
| "well_formed (a # b # s) =
     (if high_surrogate a then low_surrogate b \<and> well_formed s
      else \<not> low_surrogate a \<and> well_formed (b # s))"

definition hex_value :: "16 word \<Rightarrow> nat option" where
  "hex_value c =
     (if 48 \<le> c \<and> c \<le> 57 then Some (unat c - 48)
      else if 97 \<le> c \<and> c \<le> 102 then Some (unat c - 87)
      else if 65 \<le> c \<and> c \<le> 70 then Some (unat c - 55)
      else None)"

fun uuid_bytes :: "nat \<Rightarrow> jstring \<Rightarrow> (nat list \<times> jstring) option" where
  "uuid_bytes 0 src = Some ([], src)"
| "uuid_bytes (Suc n) (a # b # src) =
     (case (hex_value a, hex_value b) of
        (Some x, Some y) \<Rightarrow>
          (case uuid_bytes n (if 0 < n \<and> even n \<and> take 1 src = [45] then drop 1 src else src) of
             None \<Rightarrow> None
           | Some (bytes, rest) \<Rightarrow> Some ((16 * x + y) # bytes, rest))
      | _ \<Rightarrow> None)"
| "uuid_bytes (Suc n) _ = None"

definition parse_uuid :: "jstring \<Rightarrow> uuid option" where
  "parse_uuid s =
     (let braces = (take 1 s = [123]);
          src = (if braces then drop 1 s else s)
      in case uuid_bytes 16 src of
           None \<Rightarrow> None
         | Some (bytes, rest) \<Rightarrow>
             if rest = (if braces then [125] else [])
             then Some (foldl (\<lambda>w b. w * 256 + of_nat b) 0 bytes)
             else None)"

text \<open>What a request cannot choose: the clock, the ids the database generates
  (\<open>gen_random_uuid()\<close>) and the token that \<open>generateToken\<close> draws.\<close>

record env =
  now :: int
  newPasscodeId :: uuid
  newSessionId :: uuid
  randomToken :: jstring

text \<open>The queries of lib/auth.ts.  An insert throws on a primary-key or unique
  violation and, for sessions, on a dangling \<open>passcode_id\<close>; deleting a passcode
  cascades to its sessions.  The digest that \<open>login\<close> and \<open>createPasscode\<close> look
  up is made of hexadecimal digits, and the id that \<open>login\<close> updates comes from a row.\<close>

definition select_passcodes :: "(passcode \<Rightarrow> bool) \<Rightarrow> passcode list io" where
  "select_passcodes P = store_call (\<lambda>d. (Inr (filter P (passcodes d)), d))"

definition select_passcodes_limit :: "nat \<Rightarrow> passcode list io" where
  "select_passcodes_limit n = store_call (\<lambda>d. (Inr (take n (passcodes d)), d))"

definition join_rows :: "db \<Rightarrow> jstring \<Rightarrow> int \<Rightarrow> (session \<times> passcode) list" where
  "join_rows d t clock =
     filter (\<lambda>(s, p). passcodeId s = pid p \<and> token s = t \<and> expiresAt s > clock)
       (List.product (sessions d) (passcodes d))"

definition select_passcodes_id :: "jstring \<Rightarrow> passcode list io" where
  "select_passcodes_id i =
     store_call (\<lambda>d. case parse_uuid i of
                        None \<Rightarrow> (Inl StoreError, d)
                      | Some u \<Rightarrow> (Inr (filter (\<lambda>p. pid p = u) (passcodes d)), d))"

definition select_sessions_join :: "jstring \<Rightarrow> int \<Rightarrow> (session \<times> passcode) list io" where
  "select_sessions_join t clock =
     store_call (\<lambda>d. if text_ok t then (Inr (join_rows d t clock), d) else (Inl StoreError, d))"

definition update_lastUsedAt :: "uuid \<Rightarrow> int \<Rightarrow> unit io" where
  "update_lastUsedAt i clock =
     store_call (\<lambda>d. (Inr (),
        d\<lparr>passcodes := map (\<lambda>p. if pid p = i then p\<lparr>lastUsedAt := Some clock\<rparr> else p) (passcodes d)\<rparr>))"

definition insert_passcode :: "passcode \<Rightarrow> unit io" where
  "insert_passcode row =
     store_call (\<lambda>d. if \<not> text_ok (name row) \<or> pid row \<in> set (map pid (passcodes d))
                      then (Inl StoreError, d)
                      else (Inr (), d\<lparr>passcodes := passcodes d @ [row]\<rparr>))"

definition insert_session :: "session \<Rightarrow> unit io" where
  "insert_session row =
     store_call (\<lambda>d. if \<not> text_ok (token row)
                         \<or> sid row \<in> set (map sid (sessions d))
                         \<or> token row \<in> set (map token (sessions d))
                         \<or> passcodeId row \<notin> set (map pid (passcodes d))
                      then (Inl StoreError, d)
                      else (Inr (), d\<lparr>sessions := sessions d @ [row]\<rparr>))"

definition delete_sessions_token :: "jstring \<Rightarrow> unit io" where
  "delete_sessions_token t =
     store_call (\<lambda>d. if text_ok t
                      then (Inr (), d\<lparr>sessions := filter (\<lambda>s. token s \<noteq> t) (sessions d)\<rparr>)
                      else (Inl StoreError, d))"

definition delete_passcodes_id :: "jstring \<Rightarrow> unit io" where
  "delete_passcodes_id i =
     store_call (\<lambda>d. case parse_uuid i of
        None \<Rightarrow> (Inl StoreError, d)
      | Some u \<Rightarrow> (Inr (),
          d\<lparr>passcodes := filter (\<lambda>p. pid p \<noteq> u) (passcodes d),
            sessions := filter (\<lambda>s. passcodeId s \<notin> set (map pid (filter (\<lambda>p. pid p = u)
                                                                  (passcodes d))))
                          (sessions d)\<rparr>))"

section \<open>Session manager (lib/auth.ts)\<close>

definition SESSION_DURATION_MS :: int where
  "SESSION_DURATION_MS = 30 * 24 * 60 * 60 * 1000"

datatype cookie_action = KeepCookie | SetCookie jstring int | DeleteCookie

datatype login_result = LoginSuccess bool | LoginFailure string

datatype op_result = Success | Failure string

record session_info =
  authenticated :: bool
  infoIsAdmin :: bool
  infoName :: jstring

text \<open>\<open>!token\<close> holds for a cookie that is absent and for one whose value is empty.\<close>

definition falsy :: "jstring option \<Rightarrow> bool" where
  "falsy v = (case v of None \<Rightarrow> True | Some s \<Rightarrow> s = [])"

definition login :: "env \<Rightarrow> jstring \<Rightarrow> (login_result \<times> cookie_action) io" where
  "login e c =
     bind_io (select_passcodes (\<lambda>p. code p = hashCode c)) (\<lambda>rows.
       case rows of
         [] \<Rightarrow> return_io (LoginFailure ''Invalid passcode'', KeepCookie)
       | passcode # _ \<Rightarrow>
           bind_io (update_lastUsedAt (pid passcode) (now e)) (\<lambda>_.
           bind_io (insert_session \<lparr>sid = newSessionId e, passcodeId = pid passcode,
                      token = randomToken e, expiresAt = now e + SESSION_DURATION_MS,
                      sessionCreatedAt = now e\<rparr>) (\<lambda>_.
           return_io (LoginSuccess (isAdmin passcode),
                      SetCookie (randomToken e) (now e + SESSION_DURATION_MS)))))"

definition getSession :: "env \<Rightarrow> jstring option \<Rightarrow> session_info option io" where
  "getSession e cookie =
     (if falsy cookie then return_io None
      else bind_io (select_sessions_join (the cookie) (now e)) (\<lambda>rows.
        case rows of
          [] \<Rightarrow> return_io None
        | (s, p) # _ \<Rightarrow>
            return_io (Some \<lparr>authenticated = True, infoIsAdmin = isAdmin p, infoName = name p\<rparr>)))"

definition logout :: "jstring option \<Rightarrow> cookie_action io" where
  "logout cookie =
     bind_io (if falsy cookie then return_io () else delete_sessions_token (the cookie)) (\<lambda>_.
     return_io DeleteCookie)"

definition hasAnyPasscodes :: "bool io" where
  "hasAnyPasscodes = bind_io (select_passcodes_limit 1) (\<lambda>result. return_io (length result > 0))"

definition is_digit :: "16 word \<Rightarrow> bool" where
  "is_digit c = (48 \<le> c \<and> c \<le> 57)"

definition six_digits :: "jstring \<Rightarrow> bool" where
  "six_digits c = (length c = 6 \<and> list_all is_digit c)"

definition createPasscode :: "env \<Rightarrow> jstring \<Rightarrow> jstring \<Rightarrow> bool \<Rightarrow> op_result io" where
  "createPasscode e c nm adm =
     (if \<not> six_digits c then return_io (Failure ''Passcode must be exactly 6 digits'')
      else bind_io (select_passcodes (\<lambda>p. code p = hashCode c)) (\<lambda>rows.
        case rows of
          existing # _ \<Rightarrow> return_io (Failure ''This passcode already exists'')
        | [] \<Rightarrow>
            bind_io (insert_passcode \<lparr>pid = newPasscodeId e, code = hashCode c, name = nm,
                       isAdmin = adm, createdAt = now e, lastUsedAt = None\<rparr>) (\<lambda>_.
            return_io Success)))"

type_synonym passcode_view = "uuid \<times> jstring \<times> bool \<times> int \<times> int option"

definition listPasscodes :: "passcode_view list io" where
  "listPasscodes =
     store_call (\<lambda>d. (Inr (map (\<lambda>p. (pid p, name p, isAdmin p, createdAt p, lastUsedAt p))
                                (sort_key createdAt (passcodes d))), d))"

definition deletePasscode :: "jstring \<Rightarrow> op_result io" where
  "deletePasscode i =
     bind_io (select_passcodes isAdmin) (\<lambda>admins.
     bind_io (select_passcodes_id i) (\<lambda>rows.
       if (case rows of [] \<Rightarrow> False | passcodeToDelete # _ \<Rightarrow> isAdmin passcodeToDelete)
          \<and> length admins \<le> 1
       then return_io (Failure ''Cannot delete the last admin passcode'')
       else bind_io (delete_passcodes_id i) (\<lambda>_. return_io Success)))"

section \<open>Request authorizer (\<open>validateApiToken\<close>, \<open>validateRequest\<close>, middleware.ts)\<close>

datatype body =
    ErrorBody string
  | SuccessBody
  | LoginBody bool
  | SetupBody
  | PasscodesBody "passcode_view list"
  | StatusBody bool
  | SessionBody session_info

record response =
  status :: nat
  body :: body
  cookie :: cookie_action

definition json :: "nat \<Rightarrow> body \<Rightarrow> response" where
  "json st b = \<lparr>status = st, body = b, cookie = KeepCookie\<rparr>"

text \<open>A JSON value found in a request body: a string, or anything else (a missing field
  included) with its truthiness.\<close>

datatype jvalue = JString jstring | JOther bool

definition truthy :: "jvalue \<Rightarrow> bool" where
  "truthy v = (case v of JString s \<Rightarrow> s \<noteq> [] | JOther t \<Rightarrow> t)"

record create_body =
  bodyCode :: jvalue
  bodyName :: "jstring option"
  bodyIsAdmin :: "bool option"

text \<open>The routes of the sources.  A body of \<open>None\<close> is one that \<open>request.json()\<close> or the
  destructuring rejects.\<close>

datatype api_call =
    LoginPOST "jvalue option"
  | StatusGET
  | PasscodesGET
  | PasscodesPOST "create_body option"
  | PasscodeDELETE jstring

record request =
  call :: api_call
  sessionCookie :: "jstring option"
  authorization :: "jstring option"
  xApiToken :: "jstring option"

datatype auth_check = Valid | Invalid response

definition startsWith :: "jstring \<Rightarrow> jstring \<Rightarrow> bool" where
  "startsWith s prefix = (take (length prefix) s = prefix)"

definition validateApiToken :: "jstring option \<Rightarrow> request \<Rightarrow> auth_check" where
  "validateApiToken apiToken req =
     (if falsy apiToken then Valid
      else if (case authorization req of
                 None \<Rightarrow> False
               | Some authHeader \<Rightarrow>
                   startsWith authHeader (js ''Bearer '') \<and> drop 7 authHeader = the apiToken)
      then Valid
      else if xApiToken req = apiToken then Valid
      else Invalid (json 401 (ErrorBody ''Unauthorized - Invalid or missing API token'')))"

definition validateRequest :: "jstring option \<Rightarrow> env \<Rightarrow> request \<Rightarrow> auth_check io" where
  "validateRequest apiToken e req =
     (case validateApiToken apiToken req of
        Valid \<Rightarrow> return_io Valid
      | Invalid _ \<Rightarrow>
          bind_io (getSession e (sessionCookie req)) (\<lambda>session.
            if (case session of None \<Rightarrow> False | Some s \<Rightarrow> authenticated s)
            then return_io Valid
            else return_io (Invalid (json 401
                   (ErrorBody ''Unauthorized - Please provide a valid API token or login'')))))"

section \<open>Route handlers\<close>

definition catch_io :: "response io \<Rightarrow> response \<Rightarrow> db \<Rightarrow> response \<times> db" where
  "catch_io m r d = (case m d of (Inl e, d') \<Rightarrow> (r, d') | (Inr a, d') \<Rightarrow> (a, d'))"

definition throw_io :: "exn \<Rightarrow> 'a io" where
  "throw_io x d = (Inl x, d)"

definition login_POST :: "env \<Rightarrow> jvalue option \<Rightarrow> db \<Rightarrow> response \<times> db" where
  "login_POST e b =
     catch_io
       (case b of
          None \<Rightarrow> throw_io BodyError
        | Some (JOther t) \<Rightarrow> return_io (json 400 (ErrorBody ''Passcode is required''))
        | Some (JString c) \<Rightarrow>
            if c = [] then return_io (json 400 (ErrorBody ''Passcode is required''))
            else bind_io hasAnyPasscodes (\<lambda>hasPasscodes.
              if \<not> hasPasscodes then
                if \<not> six_digits c
                then return_io (json 400 (ErrorBody ''Passcode must be exactly 6 digits''))
                else bind_io (createPasscode e c (js ''Admin'') True) (\<lambda>_.
                     bind_io (login e c) (\<lambda>result.
                     return_io \<lparr>status = 200, body = SetupBody, cookie = snd result\<rparr>))
              else bind_io (login e c) (\<lambda>result.
                case fst result of
                  LoginFailure err \<Rightarrow> return_io (json 401 (ErrorBody err))
                | LoginSuccess adm \<Rightarrow>
                    return_io \<lparr>status = 200, body = LoginBody adm, cookie = snd result\<rparr>)))
       (json 500 (ErrorBody ''Login failed''))"

text \<open>\<open>!session?.authenticated || !session.isAdmin\<close>\<close>

definition not_admin :: "session_info option \<Rightarrow> bool" where
  "not_admin session =
     (case session of None \<Rightarrow> True | Some s \<Rightarrow> \<not> authenticated s \<or> \<not> infoIsAdmin s)"

definition passcodes_GET :: "env \<Rightarrow> jstring option \<Rightarrow> db \<Rightarrow> response \<times> db" where
  "passcodes_GET e c =
     catch_io
       (bind_io (getSession e c) (\<lambda>session.
          if not_admin session then return_io (json 401 (ErrorBody ''Unauthorized''))
          else bind_io listPasscodes (\<lambda>codes. return_io (json 200 (PasscodesBody codes)))))
       (json 500 (ErrorBody ''Failed to list passcodes''))"

text \<open>A code that is not a string has no \<open>length\<close> of 6 or does not match \<open>/^\d+$/\<close>
  once converted, so \<open>createPasscode\<close> answers it with the format error.\<close>

definition passcodes_POST :: "env \<Rightarrow> jstring option \<Rightarrow> create_body option \<Rightarrow> db \<Rightarrow> response \<times> db" where
  "passcodes_POST e c b =
     catch_io
       (bind_io (getSession e c) (\<lambda>session.
          if not_admin session then return_io (json 401 (ErrorBody ''Unauthorized''))
          else case b of
            None \<Rightarrow> throw_io BodyError
          | Some payload \<Rightarrow>
              if \<not> truthy (bodyCode payload) \<or> falsy (bodyName payload)
              then return_io (json 400 (ErrorBody ''Code and name are required''))
              else bind_io
                (case bodyCode payload of
                   JString s \<Rightarrow>
                     createPasscode e s (the (bodyName payload))
                       (case bodyIsAdmin payload of None \<Rightarrow> False | Some a \<Rightarrow> a)
                 | JOther _ \<Rightarrow> return_io (Failure ''Passcode must be exactly 6 digits''))
                (\<lambda>result. case result of
                   Failure err \<Rightarrow> return_io (json 400 (ErrorBody err))
                 | Success \<Rightarrow> return_io (json 200 SuccessBody))))
       (json 500 (ErrorBody ''Failed to create passcode''))"

definition passcode_DELETE :: "env \<Rightarrow> jstring option \<Rightarrow> jstring \<Rightarrow> db \<Rightarrow> response \<times> db" where
  "passcode_DELETE e c i =
     catch_io
       (bind_io (getSession e c) (\<lambda>session.
          if not_admin session then return_io (json 401 (ErrorBody ''Unauthorized''))
          else bind_io (deletePasscode i) (\<lambda>result.
            case result of
              Failure err \<Rightarrow> return_io (json 400 (ErrorBody err))
            | Success \<Rightarrow> return_io (json 200 SuccessBody))))
       (json 500 (ErrorBody ''Failed to delete passcode''))"

definition status_GET :: "env \<Rightarrow> jstring option \<Rightarrow> db \<Rightarrow> response \<times> db" where
  "status_GET e c =
     catch_io
       (bind_io hasAnyPasscodes (\<lambda>hasPasscodes.
          if \<not> hasPasscodes then return_io (json 200 (StatusBody True))
          else bind_io (getSession e c) (\<lambda>session.
            case session of
              None \<Rightarrow> return_io (json 200 (StatusBody False))
            | Some s \<Rightarrow> return_io (json 200 (SessionBody s)))))
       (json 500 (StatusBody False))"

definition handler :: "env \<Rightarrow> request \<Rightarrow> db \<Rightarrow> response \<times> db" where
  "handler e req =
     (case call req of
        LoginPOST b \<Rightarrow> login_POST e b
      | StatusGET \<Rightarrow> status_GET e (sessionCookie req)
      | PasscodesGET \<Rightarrow> passcodes_GET e (sessionCookie req)
      | PasscodesPOST b \<Rightarrow> passcodes_POST e (sessionCookie req) b
      | PasscodeDELETE i \<Rightarrow> passcode_DELETE e (sessionCookie req) i)"

text \<open>middleware.ts lets \<open>/api/auth/login\<close>, \<open>/api/auth/setup\<close> and \<open>/api/auth/status\<close>
  through and puts \<open>validateRequest\<close> in front of every other \<open>/api/\<close> path; an
  exception there is not caught.\<close>

definition exempt :: "api_call \<Rightarrow> bool" where
  "exempt c = (case c of LoginPOST _ \<Rightarrow> True | StatusGET \<Rightarrow> True | _ \<Rightarrow> False)"

definition serve :: "jstring option \<Rightarrow> env \<Rightarrow> request \<Rightarrow> response io" where
  "serve apiToken e req =
     (if exempt (call req) then (\<lambda>d. case handler e req d of (r, d') \<Rightarrow> (Inr r, d'))
      else bind_io (validateRequest apiToken e req) (\<lambda>auth.
        case auth of
          Invalid err \<Rightarrow> return_io err
        | Valid \<Rightarrow> (\<lambda>d. case handler e req d of (r, d') \<Rightarrow> (Inr r, d'))))"

section \<open>Sequential executions\<close>

text \<open>One step is one request served to the end, or one call of \<open>logout\<close> (whose route
  is not among the sources), with any configuration, environment, cookie and store fault.\<close>

definition empty_db :: db where
  "empty_db = \<lparr>passcodes = [], sessions = [], faults = []\<rparr>"

inductive steps :: "db \<Rightarrow> db \<Rightarrow> bool" where
  steps_refl: "steps d d"
| steps_serve: "steps d d' \<Longrightarrow> steps d (snd (serve apiToken e req (d'\<lparr>faults := f\<rparr>)))"
| steps_logout: "steps d d' \<Longrightarrow> steps d (snd (logout c (d'\<lparr>faults := f\<rparr>)))"

definition lastAdminOk :: "db \<Rightarrow> bool" where
  "lastAdminOk d = (passcodes d = [] \<or> list_ex isAdmin (passcodes d))"

section \<open>How the passcode table can change\<close>

text \<open>The writes that lib/auth.ts performs on the passcode table, closed under
  sequencing: touching \<open>lastUsedAt\<close>, inserting a row under a fresh id that is an admin
  or joins a table that is not empty, and deleting by id when the last-admin guard lets it
  through.\<close>

inductive evolve :: "passcode list \<Rightarrow> passcode list \<Rightarrow> bool" where
  evolve_refl: "evolve ps ps"
| evolve_touch: "evolve ps ps' \<Longrightarrow>
     evolve ps (map (\<lambda>p. if pid p = i then p\<lparr>lastUsedAt := Some t\<rparr> else p) ps')"
| evolve_insert: "evolve ps ps' \<Longrightarrow> pid row \<notin> set (map pid ps') \<Longrightarrow> isAdmin row \<or> ps' \<noteq> [] \<Longrightarrow>
     evolve ps (ps' @ [row])"
| evolve_delete: "evolve ps ps' \<Longrightarrow>
     \<not> ((case filter (\<lambda>p. pid p = i) ps' of [] \<Rightarrow> False | p # _ \<Rightarrow> isAdmin p)
        \<and> length (filter isAdmin ps') \<le> 1) \<Longrightarrow>
     evolve ps (filter (\<lambda>p. pid p \<noteq> i) ps')"

definition has_admin :: "passcode list \<Rightarrow> bool" where
  "has_admin ps = (distinct (map pid ps) \<and> list_ex isAdmin ps)"

definition ev :: "db \<Rightarrow> db \<Rightarrow> bool" where
  "ev d d' = evolve (passcodes d) (passcodes d')"

definition table_ok :: "db \<Rightarrow> bool" where
  "table_ok d = (distinct (map pid (passcodes d)) \<and> lastAdminOk d)"

section \<open>A first run, used to exercise the theorems\<close>

definition first_env :: env where
  "first_env = \<lparr>now = 5000, newPasscodeId = 1, newSessionId = 17,
                 randomToken = js ''tok1''\<rparr>"

definition later_env :: env where
  "later_env = \<lparr>now = 6000, newPasscodeId = 2, newSessionId = 18,
                 randomToken = js ''tok2''\<rparr>"

definition first_request :: request where
  "first_request = \<lparr>call = LoginPOST (Some (JString (js ''123456''))), sessionCookie = None,
                     authorization = None, xApiToken = None\<rparr>"

definition first_admin :: passcode where
  "first_admin = \<lparr>pid = 1, code = hashCode (js ''123456''), name = js ''Admin'',
                   isAdmin = True, createdAt = 5000, lastUsedAt = Some 5000\<rparr>"

definition second_admin :: passcode where
  "second_admin = \<lparr>pid = 2, code = hashCode (js ''654321''), name = js ''Root'',
                    isAdmin = True, createdAt = 6000, lastUsedAt = None\<rparr>"

definition first_session :: session where
  "first_session = \<lparr>sid = 17, passcodeId = 1, token = js ''tok1'',
                     expiresAt = 5000 + SESSION_DURATION_MS, sessionCreatedAt = 5000\<rparr>"

definition first_admin_id :: jstring where
  "first_admin_id = js ''00000000-0000-0000-0000-000000000001''"

definition unknown_id :: jstring where
  "unknown_id = js ''{00000000-0000-0000-0000-0000000000FF}''"

definition db_after_setup :: db where
  "db_after_setup = \<lparr>passcodes = [first_admin], sessions = [first_session], faults = []\<rparr>"

definition db_two_admins :: db where
  "db_two_admins =
     \<lparr>passcodes = [first_admin, second_admin], sessions = [first_session], faults = []\<rparr>"

definition create_request :: request where
  "create_request =
     \<lparr>call = PasscodesPOST (Some \<lparr>bodyCode = JString (js ''654321''), bodyName = Some (js ''Root''),
                                  bodyIsAdmin = Some True\<rparr>),
      sessionCookie = Some (js ''tok1''), authorization = None, xApiToken = None\<rparr>"

definition token_request :: "api_call \<Rightarrow> jstring option \<Rightarrow> jstring option \<Rightarrow> request" where
  "token_request c bearer ck =
     \<lparr>call = c, sessionCookie = ck, authorization = bearer, xApiToken = None\<rparr>"

section \<open>The hasher's output\<close>

lemma radix_digits_numeral:
  "radix_digits (numeral b) (numeral n) =
     (if numeral b < (2::nat) \<or> (numeral n :: nat) < numeral b then [digit_char (numeral n)]
      else radix_digits (numeral b) (numeral n div numeral b)
             @ [digit_char (numeral n mod numeral b)])"
  by (rule radix_digits.simps)

lemma radix_digits_0: "radix_digits b 0 = [digit_char 0]"
  by (subst radix_digits.simps) auto

lemma radix_digits_1: "radix_digits b (Suc 0) = [digit_char 1]"
  by (subst radix_digits.simps) (cases "b < 2"; simp)

lemmas hash_eval = hashCode_def finalHash_def salted_def js_def hash_step_def
  number_toString_def padStart_def radix_digits_numeral radix_digits_0 radix_digits_1
  digit_char_def

lemma radix_digits_length:
  "2 \<le> b \<Longrightarrow> n < b ^ Suc k \<Longrightarrow> length (radix_digits b n) \<le> Suc k"
proof (induction k arbitrary: n)
  case 0
  then show ?case by (subst radix_digits.simps) simp
next
  case (Suc k)
  show ?case
  proof (cases "n < b")
    case True
    then show ?thesis by (subst radix_digits.simps) simp
  next
    case False
    from Suc.prems have "n div b < b ^ Suc k"
      by (simp add: less_mult_imp_div_less mult.commute)
    with Suc.IH Suc.prems(1) have "length (radix_digits b (n div b)) \<le> Suc k" by blast
    with False Suc.prems(1) show ?thesis by (subst radix_digits.simps) simp
  qed
qed

lemma digit_char_hex: "d < 16 \<Longrightarrow> is_hex (digit_char d)"
proof -
  assume "d < 16"
  then have "d = 0 \<or> d = 1 \<or> d = 2 \<or> d = 3 \<or> d = 4 \<or> d = 5 \<or> d = 6 \<or> d = 7 \<or> d = 8
      \<or> d = 9 \<or> d = 10 \<or> d = 11 \<or> d = 12 \<or> d = 13 \<or> d = 14 \<or> d = 15" by arith
  then show ?thesis by (elim disjE) (simp_all add: is_hex_def digit_char_def)
qed

lemma radix_digits_hex: "list_all is_hex (radix_digits 16 n)"
proof (induction "16::nat" n rule: radix_digits.induct)
  case (1 n)
  show ?case
  proof (cases "n < 16")
    case True
    then show ?thesis by (subst radix_digits.simps) (simp add: digit_char_hex)
  next
    case False
    with 1 have "list_all is_hex (radix_digits 16 (n div 16))" by simp
    moreover have "is_hex (digit_char (n mod 16))" by (rule digit_char_hex) simp
    ultimately show ?thesis using False by (subst radix_digits.simps) simp
  qed
qed

lemma abs_sint32: "\<bar>sint (w :: 32 word)\<bar> \<le> 2 ^ 31"
  using sint_ge [of w] sint_lt [of w] by simp

text \<open>
  Claim C10.  \<open>hashCode\<close> is defined on every string of code units, of any length (the
  two loops are folds over the input and over the salted string, and the digit
  conversion terminates), and its result always has exactly 8 characters, each a lowercase
  hexadecimal digit: the final accumulator is a 32-bit signed integer, its absolute value
  is at most \<open>2^31\<close>, which has at most 8 hexadecimal digits, and \<open>padStart\<close> fills up to 8
  with \<open>0\<close>.
\<close>

theorem hashCode_fixed_shape:
  "\<bar>sint (finalHash c)\<bar> \<le> 2 ^ 31
   \<and> length (number_toString 16 \<bar>sint (finalHash c)\<bar>) \<le> 8
   \<and> length (hashCode c) = 8
   \<and> list_all is_hex (hashCode c)"
proof -
  define n where "n = nat \<bar>sint (finalHash c)\<bar>"
  have n: "n < 16 ^ Suc 7" using abs_sint32 [of "finalHash c"] by (simp add: n_def)
  have eq: "number_toString 16 \<bar>sint (finalHash c)\<bar> = radix_digits 16 n"
    by (simp add: number_toString_def n_def)
  have len: "length (radix_digits 16 n) \<le> 8"
    using radix_digits_length [OF _ n] by simp
  have "is_hex CHR ''0''" by (simp add: is_hex_def)
  then have "length (hashCode c) = 8 \<and> list_all is_hex (hashCode c)"
    using len radix_digits_hex [of n]
    by (auto simp: hashCode_def eq padStart_def list_all_iff)
  then show ?thesis using len eq abs_sint32 [of "finalHash c"] by simp
qed

section \<open>Unfolding the store\<close>

lemmas io_defs = bind_io_def return_io_def store_call_def throw_io_def

lemmas query_defs = select_passcodes_def select_passcodes_limit_def select_passcodes_id_def
  select_sessions_join_def
  update_lastUsedAt_def insert_passcode_def insert_session_def delete_sessions_token_def
  delete_passcodes_id_def

lemma join_rows_faults [simp]:
  "join_rows (d\<lparr>faults := f\<rparr>) t clock = join_rows d t clock"
  by (simp add: join_rows_def)

section \<open>Deleting a passcode\<close>

lemma filter_pid_distinct:
  "distinct (map pid ps) \<Longrightarrow> p \<in> set ps \<Longrightarrow> filter (\<lambda>q. pid q = pid p) ps = [p]"
proof (induction ps)
  case Nil
  then show ?case by simp
next
  case (Cons a ps)
  show ?case
  proof (cases "a = p")
    case True
    with Cons.prems have "\<forall>q\<in>set ps. pid q \<noteq> pid p" by (auto simp: image_iff)
    then have "filter (\<lambda>q. pid q = pid p) ps = []" by (simp add: filter_empty_conv)
    with True show ?thesis by simp
  next
    case False
    with Cons.prems have "p \<in> set ps" "pid a \<noteq> pid p" by (auto simp: image_iff)
    with Cons show ?thesis by simp
  qed
qed

lemma deleted_ids:
  "set (map pid (filter (\<lambda>p. pid p = i) ps)) = (if \<exists>p\<in>set ps. pid p = i then {i} else {})"
  by auto

lemma deletePasscode_refuse:
  assumes "faults d = []" "distinct (map pid (passcodes d))"
    "p \<in> set (passcodes d)" "parse_uuid i = Some (pid p)"
    "isAdmin p" "length (filter isAdmin (passcodes d)) \<le> 1"
  shows "deletePasscode i d = (Inr (Failure ''Cannot delete the last admin passcode''), d)"
proof -
  have "filter (\<lambda>q. pid q = pid p) (passcodes d) = [p]"
    using filter_pid_distinct [OF assms(2,3)] by simp
  then show ?thesis using assms(1,4,5,6)
    by (simp add: deletePasscode_def io_defs query_defs)
qed

lemma deletePasscode_delete:
  assumes "faults d = []" "distinct (map pid (passcodes d))"
    "p \<in> set (passcodes d)" "parse_uuid i = Some (pid p)"
    "\<not> (isAdmin p \<and> length (filter isAdmin (passcodes d)) \<le> 1)"
  shows "deletePasscode i d =
     (Inr Success, d\<lparr>passcodes := filter (\<lambda>q. pid q \<noteq> pid p) (passcodes d),
                      sessions := filter (\<lambda>s. passcodeId s \<noteq> pid p) (sessions d)\<rparr>)"
proof -
  have "filter (\<lambda>q. pid q = pid p) (passcodes d) = [p]"
    using filter_pid_distinct [OF assms(2,3)] by simp
  moreover have "\<exists>q\<in>set (passcodes d). pid q = pid p" using assms(3) by blast
  ultimately show ?thesis using assms(1,4,5)
    by (auto simp add: deletePasscode_def io_defs query_defs deleted_ids simp del: set_map set_filter)
qed

lemma pid_unique:
  "distinct (map pid ps) \<Longrightarrow> p \<in> set ps \<Longrightarrow> q \<in> set ps \<Longrightarrow> pid q = pid p \<Longrightarrow> q = p"
  by (auto simp: distinct_map dest: inj_onD)

text \<open>
  Claim C3.  With every store call succeeding and ids unique (the primary key): if the
  passcode with the given id exists, is an admin and at most one admin exists, then
  \<open>deletePasscode\<close> returns the failure \<open>Cannot delete the last admin passcode\<close> and
  leaves the whole store as it was; otherwise the target is deleted (exactly that row leaves the
  table) and the call returns success.  In particular, with two admins, deleting one succeeds.
\<close>

theorem deletePasscode_last_admin_guard:
  assumes "faults d = []" "distinct (map pid (passcodes d))"
    "p \<in> set (passcodes d)" "parse_uuid i = Some (pid p)"
  shows "(isAdmin p \<and> length (filter isAdmin (passcodes d)) \<le> 1 \<longrightarrow>
            deletePasscode i d = (Inr (Failure ''Cannot delete the last admin passcode''), d))
     \<and> (\<not> (isAdmin p \<and> length (filter isAdmin (passcodes d)) \<le> 1) \<longrightarrow>
            fst (deletePasscode i d) = Inr Success
          \<and> passcodes (snd (deletePasscode i d)) = filter (\<lambda>q. pid q \<noteq> pid p) (passcodes d)
          \<and> set (passcodes (snd (deletePasscode i d))) = set (passcodes d) - {p})
     \<and> (isAdmin p \<and> 2 \<le> length (filter isAdmin (passcodes d)) \<longrightarrow>
            fst (deletePasscode i d) = Inr Success
          \<and> p \<notin> set (passcodes (snd (deletePasscode i d))))"
proof -
  have rest: "set (filter (\<lambda>q. pid q \<noteq> pid p) (passcodes d)) = set (passcodes d) - {p}"
    using pid_unique [OF assms(2,3)] by auto
  have A: "isAdmin p \<and> length (filter isAdmin (passcodes d)) \<le> 1 \<longrightarrow>
            deletePasscode i d = (Inr (Failure ''Cannot delete the last admin passcode''), d)"
    using deletePasscode_refuse [OF assms] by blast
  have B: "\<not> (isAdmin p \<and> length (filter isAdmin (passcodes d)) \<le> 1) \<longrightarrow>
            fst (deletePasscode i d) = Inr Success
          \<and> passcodes (snd (deletePasscode i d)) = filter (\<lambda>q. pid q \<noteq> pid p) (passcodes d)
          \<and> set (passcodes (snd (deletePasscode i d))) = set (passcodes d) - {p}"
  proof
    assume "\<not> (isAdmin p \<and> length (filter isAdmin (passcodes d)) \<le> 1)"
    from deletePasscode_delete [OF assms this] rest
    show "fst (deletePasscode i d) = Inr Success
          \<and> passcodes (snd (deletePasscode i d)) = filter (\<lambda>q. pid q \<noteq> pid p) (passcodes d)
          \<and> set (passcodes (snd (deletePasscode i d))) = set (passcodes d) - {p}" by simp
  qed
  have C: "isAdmin p \<and> 2 \<le> length (filter isAdmin (passcodes d)) \<longrightarrow>
            fst (deletePasscode i d) = Inr Success
          \<and> p \<notin> set (passcodes (snd (deletePasscode i d)))"
  proof
    assume "isAdmin p \<and> 2 \<le> length (filter isAdmin (passcodes d))"
    then have "\<not> (isAdmin p \<and> length (filter isAdmin (passcodes d)) \<le> 1)" by simp
    with B have "fst (deletePasscode i d) = Inr Success"
      and s: "set (passcodes (snd (deletePasscode i d))) = set (passcodes d) - {p}" by blast+
    then show "fst (deletePasscode i d) = Inr Success
          \<and> p \<notin> set (passcodes (snd (deletePasscode i d)))" by (simp only: s) simp
  qed
  show ?thesis by (intro conjI A B C)
qed

text \<open>
  Claim C9, as amended.  With every store call succeeding: for an id that is the text of a
  uuid and matches no passcode row, \<open>deletePasscode\<close> returns \<open>{success: true}\<close>, not
  an error, and the store is unchanged (the guard is false on the absent row and the delete
  matches nothing).  For an id that is not the text of a uuid the lookup by id throws, the
  store is unchanged, and the delete route, called with an admin session, answers 500.
\<close>

theorem deletePasscode_unknown_id:
  assumes "faults d = []"
  shows "(parse_uuid i = Some u \<and> (\<forall>p\<in>set (passcodes d). pid p \<noteq> u) \<longrightarrow>
            deletePasscode i d = (Inr Success, d))
     \<and> (parse_uuid i = None \<longrightarrow>
            deletePasscode i d = (Inl StoreError, d)
          \<and> (getSession e c d0 = (Inr session, d) \<and> \<not> not_admin session \<longrightarrow>
               passcode_DELETE e c i d0 = (json 500 (ErrorBody ''Failed to delete passcode''), d)))"
proof -
  have A: "parse_uuid i = Some u \<and> (\<forall>p\<in>set (passcodes d). pid p \<noteq> u) \<longrightarrow>
            deletePasscode i d = (Inr Success, d)"
  proof
    assume h: "parse_uuid i = Some u \<and> (\<forall>p\<in>set (passcodes d). pid p \<noteq> u)"
    then have k: "filter (\<lambda>q. pid q \<noteq> u) (passcodes d) = passcodes d"
      by (simp add: filter_id_conv)
    show "deletePasscode i d = (Inr Success, d)"
      using assms h k
      by (simp add: deletePasscode_def io_defs query_defs deleted_ids filter_empty_conv
            del: set_map set_filter)
  qed
  have B: "parse_uuid i = None \<longrightarrow>
            deletePasscode i d = (Inl StoreError, d)
          \<and> (getSession e c d0 = (Inr session, d) \<and> \<not> not_admin session \<longrightarrow>
               passcode_DELETE e c i d0 = (json 500 (ErrorBody ''Failed to delete passcode''), d))"
  proof
    assume n: "parse_uuid i = None"
    have t: "deletePasscode i d = (Inl StoreError, d)"
      using assms n by (simp add: deletePasscode_def io_defs query_defs)
    have r: "getSession e c d0 = (Inr session, d) \<and> \<not> not_admin session \<longrightarrow>
               passcode_DELETE e c i d0 = (json 500 (ErrorBody ''Failed to delete passcode''), d)"
    proof
      assume g: "getSession e c d0 = (Inr session, d) \<and> \<not> not_admin session"
      then have g1: "getSession e c d0 = (Inr session, d)" and g2: "\<not> not_admin session"
        by simp_all
      show "passcode_DELETE e c i d0 = (json 500 (ErrorBody ''Failed to delete passcode''), d)"
        using g1 g2 t by (simp add: passcode_DELETE_def catch_io_def bind_io_def)
    qed
    show "deletePasscode i d = (Inl StoreError, d)
          \<and> (getSession e c d0 = (Inr session, d) \<and> \<not> not_admin session \<longrightarrow>
               passcode_DELETE e c i d0 = (json 500 (ErrorBody ''Failed to delete passcode''), d))"
      using t r by (rule conjI)
  qed
  show ?thesis by (intro conjI A B)
qed

section \<open>Validating a session\<close>

lemma set_join_rows:
  "set (join_rows d t clock) =
     {(s, p). s \<in> set (sessions d) \<and> p \<in> set (passcodes d) \<and> passcodeId s = pid p
              \<and> token s = t \<and> clock < expiresAt s}"
  by (auto simp: join_rows_def)

lemma getSession_nofault:
  assumes "faults d = []"
  shows "getSession e c d =
    (if falsy c then (Inr None, d)
     else if text_ok (the c) then
       (Inr (case join_rows d (the c) (now e) of [] \<Rightarrow> None
             | (s, p) # _ \<Rightarrow>
                 Some \<lparr>authenticated = True, infoIsAdmin = isAdmin p, infoName = name p\<rparr>), d)
     else (Inl StoreError, d))"
  using assms
  by (simp add: getSession_def io_defs query_defs split: list.splits)

lemma getSession_accepted:
  assumes "faults d = []" "falsy c \<or> text_ok (the c)"
  shows "getSession e c d =
    (Inr (if falsy c then None
          else case join_rows d (the c) (now e) of [] \<Rightarrow> None
               | (s, p) # _ \<Rightarrow>
                   Some \<lparr>authenticated = True, infoIsAdmin = isAdmin p, infoName = name p\<rparr>), d)"
  using assms by (auto simp: getSession_nofault)

text \<open>
  Claim C5, as amended.  With the store call succeeding and a cookie token that the store
  takes as text (well-formed, no code unit 0), \<open>getSession\<close> leaves the store as it is
  and returns an authenticated result exactly when the cookie carries a (non-empty) token,
  some session row
  has exactly that token and an \<open>expiresAt\<close> strictly greater than the current time, and
  its passcode row exists; the result then carries \<open>authenticated = true\<close> and the admin
  flag and name of that passcode.  In every other such case (cookie missing or empty, no such
  row, \<open>expiresAt \<le> now\<close>) it returns absent, and a token whose sessions have all
  expired stays invalid at every later time.  For a token that holds the code unit 0 the
  lookup throws instead of returning absent.
\<close>

theorem getSession_valid_iff:
  assumes "faults d = []"
  shows "(falsy c \<or> text_ok (the c) \<and> well_formed (the c) \<longrightarrow>
        snd (getSession e c d) = d
      \<and> ((\<exists>info. fst (getSession e c d) = Inr (Some info)) \<longleftrightarrow>
           (\<exists>t. c = Some t \<and> t \<noteq> [] \<and>
              (\<exists>s\<in>set (sessions d). \<exists>p\<in>set (passcodes d).
                 token s = t \<and> now e < expiresAt s \<and> passcodeId s = pid p)))
      \<and> (fst (getSession e c d) = Inr None \<or> (\<exists>info. fst (getSession e c d) = Inr (Some info)))
      \<and> (\<forall>info. fst (getSession e c d) = Inr (Some info) \<longrightarrow>
            authenticated info \<and>
            (\<exists>s\<in>set (sessions d). \<exists>p\<in>set (passcodes d).
               c = Some (token s) \<and> now e < expiresAt s \<and> passcodeId s = pid p
               \<and> infoIsAdmin info = isAdmin p \<and> infoName info = name p))
      \<and> ((\<forall>s\<in>set (sessions d). c = Some (token s) \<longrightarrow> expiresAt s \<le> now e) \<longrightarrow>
            (\<forall>e'::env. now e \<le> now e' \<longrightarrow> fst (getSession e' c d) = Inr None)))
   \<and> (\<not> falsy c \<and> \<not> text_ok (the c) \<longrightarrow> getSession e c d = (Inl StoreError, d))"
proof (intro conjI impI)
  assume "falsy c \<or> text_ok (the c) \<and> well_formed (the c)"
  then have ok: "falsy c \<or> text_ok (the c)" by auto
  note g = getSession_accepted [OF assms ok]
  show "snd (getSession e c d) = d" by (simp add: g)
  have rows: "(join_rows d t (now e) \<noteq> []) \<longleftrightarrow>
     (\<exists>s\<in>set (sessions d). \<exists>p\<in>set (passcodes d).
               token s = t \<and> now e < expiresAt s \<and> passcodeId s = pid p)" for t and e :: env
  proof -
    have "(join_rows d t (now e) \<noteq> []) \<longleftrightarrow> set (join_rows d t (now e)) \<noteq> {}" by simp
    then show ?thesis unfolding set_join_rows by auto
  qed
  show "(\<exists>info. fst (getSession e c d) = Inr (Some info)) \<longleftrightarrow>
         (\<exists>t. c = Some t \<and> t \<noteq> [] \<and>
            (\<exists>s\<in>set (sessions d). \<exists>p\<in>set (passcodes d).
               token s = t \<and> now e < expiresAt s \<and> passcodeId s = pid p))"
  proof (cases "falsy c")
    case True
    then show ?thesis by (auto simp: g falsy_def split: option.splits)
  next
    case False
    then obtain t where t: "c = Some t" "t \<noteq> []" by (auto simp: falsy_def split: option.splits)
    have v: "fst (getSession e (Some t) d) =
        Inr (case join_rows d t (now e) of [] \<Rightarrow> None
             | (s, p) # _ \<Rightarrow>
                 Some \<lparr>authenticated = True, infoIsAdmin = isAdmin p, infoName = name p\<rparr>)"
      using g False t by simp
    show ?thesis unfolding t(1) using t(2) rows [of t e]
      by (auto simp: v split: list.splits)
  qed
  show "fst (getSession e c d) = Inr None \<or> (\<exists>info. fst (getSession e c d) = Inr (Some info))"
    by (simp add: g split: list.splits)
  show "\<forall>info. fst (getSession e c d) = Inr (Some info) \<longrightarrow>
          authenticated info \<and>
          (\<exists>s\<in>set (sessions d). \<exists>p\<in>set (passcodes d).
             c = Some (token s) \<and> now e < expiresAt s \<and> passcodeId s = pid p
             \<and> infoIsAdmin info = isAdmin p \<and> infoName info = name p)"
  proof (intro allI impI)
    fix info
    assume h: "fst (getSession e c d) = Inr (Some info)"
    then have nf: "\<not> falsy c" by (auto simp: g split: if_splits)
    then obtain t where t: "c = Some t" by (auto simp: falsy_def split: option.splits)
    from h nf t g obtain s p rest where r: "join_rows d t (now e) = (s, p) # rest"
      "info = \<lparr>authenticated = True, infoIsAdmin = isAdmin p, infoName = name p\<rparr>"
      by (auto split: list.splits)
    from r(1) have "(s, p) \<in> set (join_rows d t (now e))" by simp
    then have "s \<in> set (sessions d)" "p \<in> set (passcodes d)" "passcodeId s = pid p" "token s = t"
      "now e < expiresAt s" unfolding set_join_rows by auto
    with r(2) t show "authenticated info \<and>
          (\<exists>s\<in>set (sessions d). \<exists>p\<in>set (passcodes d).
             c = Some (token s) \<and> now e < expiresAt s \<and> passcodeId s = pid p
             \<and> infoIsAdmin info = isAdmin p \<and> infoName info = name p)" by auto
  qed
  show "\<forall>e'::env. now e \<le> now e' \<longrightarrow> fst (getSession e' c d) = Inr None"
    if ex: "\<forall>s\<in>set (sessions d). c = Some (token s) \<longrightarrow> expiresAt s \<le> now e"
  proof (intro allI impI)
    fix e' :: env
    assume le: "now e \<le> now e'"
    show "fst (getSession e' c d) = Inr None"
    proof (cases "falsy c")
      case True
      then show ?thesis by (simp add: getSession_nofault [OF assms])
    next
      case False
      then obtain t where t: "c = Some t" by (auto simp: falsy_def split: option.splits)
      have "join_rows d t (now e') = []"
      proof (rule ccontr)
        assume "join_rows d t (now e') \<noteq> []"
        then obtain s where "s \<in> set (sessions d)" "token s = t" "now e' < expiresAt s"
          using rows [of t e'] by auto
        with ex t le show False by fastforce
      qed
      with False t ok getSession_nofault [OF assms, of e' c] show ?thesis by simp
    qed
  qed
next
  assume "\<not> falsy c \<and> \<not> text_ok (the c)"
  then show "getSession e c d = (Inl StoreError, d)"
    by (simp add: getSession_nofault [OF assms])
qed

section \<open>Authorizing a request\<close>

lemma bearer_split:
  "(startsWith h (js ''Bearer '') \<and> drop 7 h = t) \<longleftrightarrow> h = js ''Bearer '' @ t"
proof -
  have len: "length (js ''Bearer '') = 7" by (simp add: js_def)
  show ?thesis
  proof
    assume a: "startsWith h (js ''Bearer '') \<and> drop 7 h = t"
    then have "take 7 h = js ''Bearer ''" by (simp only: startsWith_def len)
    then have "take 7 h @ drop 7 h = js ''Bearer '' @ t" using a by simp
    then show "h = js ''Bearer '' @ t" by (simp only: append_take_drop_id)
  next
    assume "h = js ''Bearer '' @ t"
    then show "startsWith h (js ''Bearer '') \<and> drop 7 h = t"
      using len by (simp add: startsWith_def)
  qed
qed

lemma validateApiToken_Valid_iff:
  "validateApiToken apiToken req = Valid \<longleftrightarrow>
     falsy apiToken \<or> authorization req = Some (js ''Bearer '' @ the apiToken) \<or> xApiToken req = apiToken"
  unfolding validateApiToken_def
  by (cases "authorization req") (auto simp: bearer_split)

text \<open>
  Claim C2.  \<open>validateRequest\<close> follows the ordered dual-mode algorithm.  With no API
  token configured (unset or empty) it authorizes every request.  With a token configured, a
  request whose \<open>Authorization\<close> header is exactly \<open>Bearer \<close> followed by the token
  (the scheme compared case-sensitively), or whose \<open>x-api-token\<close> header is the token, is
  authorized without any store call.  Otherwise the result is that of the session: authorized
  iff \<open>getSession\<close> on the session cookie returns an (authenticated) session, and else
  rejected with status 401 and an error body; an exception of the session lookup is passed on.
\<close>

theorem validateRequest_dual_mode:
  "(falsy apiToken \<longrightarrow> validateRequest apiToken e req d = (Inr Valid, d))
   \<and> (apiToken = Some T
        \<and> (authorization req = Some (js ''Bearer '' @ T) \<or> xApiToken req = Some T) \<longrightarrow>
        validateRequest apiToken e req d = (Inr Valid, d))
   \<and> (apiToken = Some T \<and> T \<noteq> [] \<and> authorization req \<noteq> Some (js ''Bearer '' @ T)
        \<and> xApiToken req \<noteq> Some T \<longrightarrow>
        (\<forall>session d'. getSession e (sessionCookie req) d = (Inr session, d') \<longrightarrow>
           validateRequest apiToken e req d =
             (Inr (if session \<noteq> None then Valid
                   else Invalid (json 401 (ErrorBody
                     ''Unauthorized - Please provide a valid API token or login''))), d')
           \<and> (session \<noteq> None \<longrightarrow> authenticated (the session)))
        \<and> (\<forall>x d'. getSession e (sessionCookie req) d = (Inl x, d') \<longrightarrow>
             validateRequest apiToken e req d = (Inl x, d')))"
proof -
  have A: "falsy apiToken \<longrightarrow> validateRequest apiToken e req d = (Inr Valid, d)"
    by (simp add: validateRequest_def return_io_def validateApiToken_def)
  have B: "apiToken = Some T
        \<and> (authorization req = Some (js ''Bearer '' @ T) \<or> xApiToken req = Some T) \<longrightarrow>
        validateRequest apiToken e req d = (Inr Valid, d)"
  proof
    assume "apiToken = Some T
        \<and> (authorization req = Some (js ''Bearer '' @ T) \<or> xApiToken req = Some T)"
    then have "validateApiToken apiToken req = Valid" by (auto simp: validateApiToken_Valid_iff)
    then show "validateRequest apiToken e req d = (Inr Valid, d)"
      by (simp add: validateRequest_def return_io_def)
  qed
  have C: "apiToken = Some T \<and> T \<noteq> [] \<and> authorization req \<noteq> Some (js ''Bearer '' @ T)
        \<and> xApiToken req \<noteq> Some T \<longrightarrow>
        (\<forall>session d'. getSession e (sessionCookie req) d = (Inr session, d') \<longrightarrow>
           validateRequest apiToken e req d =
             (Inr (if session \<noteq> None then Valid
                   else Invalid (json 401 (ErrorBody
                     ''Unauthorized - Please provide a valid API token or login''))), d')
           \<and> (session \<noteq> None \<longrightarrow> authenticated (the session)))
        \<and> (\<forall>x d'. getSession e (sessionCookie req) d = (Inl x, d') \<longrightarrow>
             validateRequest apiToken e req d = (Inl x, d'))"
  proof
    assume n: "apiToken = Some T \<and> T \<noteq> [] \<and> authorization req \<noteq> Some (js ''Bearer '' @ T)
        \<and> xApiToken req \<noteq> Some T"
    then have "validateApiToken apiToken req \<noteq> Valid"
      by (auto simp: validateApiToken_Valid_iff falsy_def)
    then obtain r where r: "validateApiToken apiToken req = Invalid r"
      by (cases "validateApiToken apiToken req") auto
    have auth: "session \<noteq> None \<longrightarrow> authenticated (the session)"
      if "getSession e (sessionCookie req) d = (Inr session, d')" for session d'
      using that
      by (auto simp: getSession_def io_defs query_defs
          split: option.splits list.splits if_splits)
    show "(\<forall>session d'. getSession e (sessionCookie req) d = (Inr session, d') \<longrightarrow>
           validateRequest apiToken e req d =
             (Inr (if session \<noteq> None then Valid
                   else Invalid (json 401 (ErrorBody
                     ''Unauthorized - Please provide a valid API token or login''))), d')
           \<and> (session \<noteq> None \<longrightarrow> authenticated (the session)))
        \<and> (\<forall>x d'. getSession e (sessionCookie req) d = (Inl x, d') \<longrightarrow>
             validateRequest apiToken e req d = (Inl x, d'))"
      using r auth by (auto simp: validateRequest_def bind_io_def return_io_def)
  qed
  show ?thesis by (intro conjI A B C)
qed

lemma guard_401:
  assumes "getSession e c d = (Inr session, d')" "not_admin session"
  shows "catch_io (bind_io (getSession e c) (\<lambda>session.
          if not_admin session then return_io (json 401 (ErrorBody ''Unauthorized'')) else k session)) r d
         = (json 401 (ErrorBody ''Unauthorized''), d')"
  using assms by (simp add: catch_io_def bind_io_def return_io_def)

lemma admin_not_401:
  assumes "getSession e c d = (Inr session, d')" "\<not> not_admin session"
  shows "status (fst (passcodes_GET e c d)) \<noteq> 401
     \<and> status (fst (passcodes_POST e c b d)) \<noteq> 401
     \<and> status (fst (passcode_DELETE e c i d)) \<noteq> 401"
  using assms
  by (auto simp: passcodes_GET_def passcodes_POST_def passcode_DELETE_def catch_io_def bind_io_def
      return_io_def throw_io_def json_def
      split: prod.splits sum.splits op_result.splits option.splits jvalue.splits)

text \<open>
  Claim C4.  Whenever \<open>getSession\<close> returns something other than an authenticated
  admin session, each of the three passcode-management handlers (list, create, delete) answers
  401 \<open>Unauthorized\<close> and touches neither table; this holds as well for a request that
  passed the outer gate by a valid static API token.  When it returns an authenticated admin
  session, none of the three answers 401.
\<close>

theorem passcode_management_needs_admin_session:
  assumes "getSession e c d = (Inr session, d')"
  shows "(not_admin session \<longrightarrow>
            passcodes_GET e c d = (json 401 (ErrorBody ''Unauthorized''), d')
          \<and> passcodes_POST e c b d = (json 401 (ErrorBody ''Unauthorized''), d')
          \<and> passcode_DELETE e c i d = (json 401 (ErrorBody ''Unauthorized''), d')
          \<and> passcodes d' = passcodes d \<and> sessions d' = sessions d
          \<and> (validateApiToken apiToken req = Valid \<and> sessionCookie req = c
               \<and> call req \<in> {PasscodesGET, PasscodesPOST b, PasscodeDELETE i} \<longrightarrow>
               fst (serve apiToken e req d) = Inr (json 401 (ErrorBody ''Unauthorized''))))
     \<and> (\<not> not_admin session \<longrightarrow>
            status (fst (passcodes_GET e c d)) \<noteq> 401
          \<and> status (fst (passcodes_POST e c b d)) \<noteq> 401
          \<and> status (fst (passcode_DELETE e c i d)) \<noteq> 401)"
proof (intro conjI impI)
  assume na: "not_admin session"
  have G: "passcodes_GET e c d = (json 401 (ErrorBody ''Unauthorized''), d')"
    unfolding passcodes_GET_def by (rule guard_401 [OF assms na])
  have P: "passcodes_POST e c b d = (json 401 (ErrorBody ''Unauthorized''), d')"
    unfolding passcodes_POST_def by (rule guard_401 [OF assms na])
  have D: "passcode_DELETE e c i d = (json 401 (ErrorBody ''Unauthorized''), d')"
    unfolding passcode_DELETE_def by (rule guard_401 [OF assms na])
  have U: "passcodes d' = passcodes d \<and> sessions d' = sessions d"
    using assms
    by (auto simp: getSession_def io_defs query_defs
        split: option.splits list.splits if_splits)
  show "passcodes_GET e c d = (json 401 (ErrorBody ''Unauthorized''), d')" by (rule G)
  show "passcodes_POST e c b d = (json 401 (ErrorBody ''Unauthorized''), d')" by (rule P)
  show "passcode_DELETE e c i d = (json 401 (ErrorBody ''Unauthorized''), d')" by (rule D)
  show "passcodes d' = passcodes d" "sessions d' = sessions d" using U by simp_all
  assume "validateApiToken apiToken req = Valid \<and> sessionCookie req = c
               \<and> call req \<in> {PasscodesGET, PasscodesPOST b, PasscodeDELETE i}"
  then show "fst (serve apiToken e req d) = Inr (json 401 (ErrorBody ''Unauthorized''))"
    using G P D
    by (auto simp: serve_def exempt_def validateRequest_def bind_io_def return_io_def handler_def)
next
  assume a: "\<not> not_admin session"
  show "status (fst (passcodes_GET e c d)) \<noteq> 401"
    "status (fst (passcodes_POST e c b d)) \<noteq> 401"
    "status (fst (passcode_DELETE e c i d)) \<noteq> 401"
    using admin_not_401 [OF assms a] by simp_all
qed


lemma text_ok_Admin: "text_ok (js ''Admin'')"
  by (simp add: text_ok_def js_def)


section \<open>The passcode table along an execution\<close>

lemma evolve_trans: "evolve b c \<Longrightarrow> evolve a b \<Longrightarrow> evolve a c"
  by (induction rule: evolve.induct) (auto intro: evolve.intros)

lemma touch_pids:
  "map pid (map (\<lambda>p. if pid p = i then p\<lparr>lastUsedAt := t\<rparr> else p) ps) = map pid ps"
  by (induction ps) auto

lemma touch_admins:
  "map isAdmin (map (\<lambda>p. if pid p = i then p\<lparr>lastUsedAt := t\<rparr> else p) ps) = map isAdmin ps"
  by (induction ps) auto

lemma list_ex_map_isAdmin: "list_ex isAdmin ps = (True \<in> set (map isAdmin ps))"
  by (auto simp: list_ex_iff)

lemma has_admin_touch:
  "has_admin ps \<Longrightarrow> has_admin (map (\<lambda>p. if pid p = i then p\<lparr>lastUsedAt := t\<rparr> else p) ps)"
  unfolding has_admin_def list_ex_map_isAdmin touch_pids touch_admins by simp

lemma two_admins_other:
  assumes "distinct (map pid ps)" "2 \<le> length (filter isAdmin ps)"
  shows "\<exists>a\<in>set ps. isAdmin a \<and> pid a \<noteq> i"
proof (rule ccontr)
  assume "\<not> (\<exists>a\<in>set ps. isAdmin a \<and> pid a \<noteq> i)"
  then have sub: "set (filter isAdmin ps) \<subseteq> {p \<in> set ps. pid p = i}" by auto
  have d: "distinct ps" using assms(1) by (simp add: distinct_map)
  have inj: "inj_on pid (set ps)" using assms(1) by (simp add: distinct_map)
  have "card {p \<in> set ps. pid p = i} \<le> 1"
  proof -
    define S where "S = {p \<in> set ps. pid p = i}"
    have "pid ` S \<subseteq> {i}" by (auto simp: S_def)
    then have "card (pid ` S) \<le> card {i}" by (intro card_mono) auto
    moreover have "inj_on pid S" using inj by (rule inj_on_subset) (auto simp: S_def)
    then have "card (pid ` S) = card S" by (rule card_image)
    ultimately have "card S \<le> 1" by simp
    then show ?thesis by (simp only: S_def)
  qed
  moreover have "card (set (filter isAdmin ps)) = length (filter isAdmin ps)"
    by (rule distinct_card) (use d in simp)
  moreover have "card (set (filter isAdmin ps)) \<le> card {p \<in> set ps. pid p = i}"
    using sub by (intro card_mono) auto
  ultimately show False using assms(2) by simp
qed

lemma has_admin_delete:
  assumes "has_admin ps"
    "\<not> ((case filter (\<lambda>p. pid p = i) ps of [] \<Rightarrow> False | p # _ \<Rightarrow> isAdmin p)
        \<and> length (filter isAdmin ps) \<le> 1)"
  shows "has_admin (filter (\<lambda>p. pid p \<noteq> i) ps)"
proof -
  have dist: "distinct (map pid ps)" using assms(1) by (simp add: has_admin_def)
  obtain a where a: "a \<in> set ps" "isAdmin a" using assms(1) by (auto simp: has_admin_def list_ex_iff)
  have "\<exists>b\<in>set ps. isAdmin b \<and> pid b \<noteq> i"
  proof (cases "pid a = i")
    case False
    with a show ?thesis by blast
  next
    case True
    have "filter (\<lambda>p. pid p = i) ps = [a]"
      using filter_pid_distinct [OF dist a(1)] True by simp
    with assms(2) a(2) have "2 \<le> length (filter isAdmin ps)" by simp
    with dist show ?thesis by (rule two_admins_other)
  qed
  then have "list_ex isAdmin (filter (\<lambda>p. pid p \<noteq> i) ps)" by (auto simp: list_ex_iff)
  moreover have "distinct (map pid (filter (\<lambda>p. pid p \<noteq> i) ps))"
    using dist by (rule distinct_map_filter)
  ultimately show ?thesis by (simp add: has_admin_def)
qed

lemma has_admin_insert:
  "has_admin ps \<or> (ps = [] \<and> isAdmin row) \<Longrightarrow> pid row \<notin> set (map pid ps) \<Longrightarrow> has_admin (ps @ [row])"
  by (auto simp: has_admin_def list_ex_iff)

lemma evolve_has_admin: "evolve ps ps' \<Longrightarrow> has_admin ps \<Longrightarrow> has_admin ps'"
proof (induction rule: evolve.induct)
  case (evolve_refl ps)
  then show ?case .
next
  case (evolve_touch ps ps' i t)
  then show ?case by (simp add: has_admin_touch)
next
  case (evolve_insert ps ps' row)
  then show ?case by (intro has_admin_insert) auto
next
  case (evolve_delete ps ps' i)
  then show ?case by (intro has_admin_delete) auto
qed

lemma evolve_from_empty: "evolve ps ps' \<Longrightarrow> ps = [] \<Longrightarrow> ps' = [] \<or> has_admin ps'"
proof (induction rule: evolve.induct)
  case (evolve_refl ps)
  then show ?case by simp
next
  case (evolve_touch ps ps' i t)
  then show ?case by (auto simp: has_admin_touch)
next
  case (evolve_insert ps ps' row)
  then have "has_admin ps' \<or> (ps' = [] \<and> isAdmin row)" by auto
  then show ?case using evolve_insert.hyps(2) by (auto intro: has_admin_insert)
next
  case (evolve_delete ps ps' i)
  then show ?case by (auto intro: has_admin_delete)
qed

lemma ev_refl: "ev d d" by (simp add: ev_def evolve_refl)

lemma ev_same: "passcodes d' = passcodes d \<Longrightarrow> ev d d'" by (simp add: ev_def evolve_refl)

lemma ev_trans: "ev a b \<Longrightarrow> ev b c \<Longrightarrow> ev a c"
  unfolding ev_def by (rule evolve_trans)

lemma ev_bind:
  assumes "ev d (snd (m d))" "\<And>a d'. m d = (Inr a, d') \<Longrightarrow> ev d' (snd (f a d'))"
  shows "ev d (snd (bind_io m f d))"
proof (cases "m d")
  case (Pair r d')
  show ?thesis
  proof (cases r)
    case (Inl x)
    with Pair assms(1) show ?thesis by (simp add: bind_io_def)
  next
    case (Inr a)
    with Pair assms(1) assms(2) [of a d'] show ?thesis
      by (auto simp: bind_io_def intro: ev_trans)
  qed
qed

lemma ev_catch: "ev d (snd (m d)) \<Longrightarrow> ev d (snd (catch_io m r d))"
  by (auto simp: catch_io_def split: prod.splits sum.splits)

lemma ev_bind_neutral:
  assumes "passcodes (snd (m d)) = passcodes d" "\<And>a d'. m d = (Inr a, d') \<Longrightarrow> ev d' (snd (f a d'))"
  shows "ev d (snd (bind_io m f d))"
proof (rule ev_bind [of d m f])
  show "ev d (snd (m d))" using assms(1) by (rule ev_same)
  show "\<And>a d'. m d = (Inr a, d') \<Longrightarrow> ev d' (snd (f a d'))" by (rule assms(2))
qed

lemma ev_bind_always:
  assumes "ev d (snd (m d))" "\<And>a d'. ev d' (snd (f a d'))"
  shows "ev d (snd (bind_io m f d))"
proof (rule ev_bind [of d m f])
  show "ev d (snd (m d))" by (rule assms(1))
  show "\<And>a d'. m d = (Inr a, d') \<Longrightarrow> ev d' (snd (f a d'))" by (rule assms(2))
qed

lemma login_ev: "ev d (snd (login e c d))"
proof -
  have "passcodes (snd (login e c d)) = passcodes d
   \<or> (\<exists>i. passcodes (snd (login e c d)) =
         map (\<lambda>p. if pid p = i then p\<lparr>lastUsedAt := Some (now e)\<rparr> else p) (passcodes d))"
    by (auto simp: login_def io_defs query_defs split: option.splits list.splits if_splits)
  then show ?thesis unfolding ev_def
    using evolve_refl [of "passcodes d"] evolve_touch [OF evolve_refl [of "passcodes d"]]
    by (elim disjE exE) simp_all
qed

lemma createPasscode_ev:
  assumes "adm \<or> passcodes d \<noteq> []"
  shows "ev d (snd (createPasscode e c nm adm d))"
proof -
  have "passcodes (snd (createPasscode e c nm adm d)) = passcodes d
   \<or> (\<exists>row. passcodes (snd (createPasscode e c nm adm d)) = passcodes d @ [row]
        \<and> pid row \<notin> set (map pid (passcodes d)) \<and> isAdmin row = adm)"
    by (auto simp: createPasscode_def io_defs query_defs split: option.splits list.splits if_splits)
  then show ?thesis
  proof (elim disjE exE conjE)
    assume "passcodes (snd (createPasscode e c nm adm d)) = passcodes d"
    then show ?thesis by (rule ev_same)
  next
    fix row
    assume r: "passcodes (snd (createPasscode e c nm adm d)) = passcodes d @ [row]"
      "pid row \<notin> set (map pid (passcodes d))" "isAdmin row = adm"
    have "evolve (passcodes d) (passcodes d @ [row])"
      using evolve_refl r(2) by (rule evolve_insert) (use assms r(3) in auto)
    then show ?thesis by (simp add: ev_def r(1))
  qed
qed

lemma deletePasscode_ev: "ev d (snd (deletePasscode i d))"
proof -
  have "passcodes (snd (deletePasscode i d)) = passcodes d
   \<or> (\<exists>u. passcodes (snd (deletePasscode i d)) = filter (\<lambda>p. pid p \<noteq> u) (passcodes d)
      \<and> \<not> ((case filter (\<lambda>p. pid p = u) (passcodes d) of [] \<Rightarrow> False | p # _ \<Rightarrow> isAdmin p)
            \<and> length (filter isAdmin (passcodes d)) \<le> 1))"
    by (auto simp: deletePasscode_def io_defs query_defs split: option.splits list.splits if_splits)
  then show ?thesis
  proof (elim disjE exE conjE)
    assume "passcodes (snd (deletePasscode i d)) = passcodes d"
    then show ?thesis by (rule ev_same)
  next
    fix u
    assume r: "passcodes (snd (deletePasscode i d)) = filter (\<lambda>p. pid p \<noteq> u) (passcodes d)"
      "\<not> ((case filter (\<lambda>p. pid p = u) (passcodes d) of [] \<Rightarrow> False | p # _ \<Rightarrow> isAdmin p)
            \<and> length (filter isAdmin (passcodes d)) \<le> 1)"
    have "evolve (passcodes d) (filter (\<lambda>p. pid p \<noteq> u) (passcodes d))"
      using evolve_refl r(2) by (rule evolve_delete)
    then show ?thesis by (simp add: ev_def r(1))
  qed
qed

lemma getSession_passcodes: "passcodes (snd (getSession e c d)) = passcodes d"
  by (auto simp: getSession_def io_defs query_defs split: option.splits list.splits if_splits)

lemma logout_passcodes: "passcodes (snd (logout c d)) = passcodes d"
  by (auto simp: logout_def io_defs query_defs split: option.splits list.splits if_splits)

lemma hasAnyPasscodes_passcodes: "passcodes (snd (hasAnyPasscodes d)) = passcodes d"
  by (auto simp: hasAnyPasscodes_def io_defs query_defs split: option.splits list.splits if_splits)

lemma listPasscodes_passcodes: "passcodes (snd (listPasscodes d)) = passcodes d"
  by (auto simp: listPasscodes_def io_defs query_defs split: option.splits list.splits if_splits)

lemma getSession_admin_nonempty:
  assumes "getSession e c d = (Inr session, d')" "\<not> not_admin session"
  shows "passcodes d' \<noteq> []"
proof -
  from assms have "join_rows d (the c) (now e) \<noteq> []"
    by (auto simp: getSession_def io_defs query_defs not_admin_def
        split: option.splits list.splits if_splits)
  then obtain s p where "(s, p) \<in> set (join_rows d (the c) (now e))"
    by (cases "join_rows d (the c) (now e)") auto
  then have "p \<in> set (passcodes d)" unfolding set_join_rows by simp
  moreover have "passcodes d' = passcodes d"
    using getSession_passcodes [of e c d] assms(1) by simp
  ultimately show ?thesis by auto
qed

lemmas leaf = return_io_def throw_io_def ev_refl

lemma login_POST_ev: "ev d (snd (login_POST e b d))"
proof -
  have first_run: "ev d' (snd (bind_io (createPasscode e c (js ''Admin'') True) (\<lambda>_.
                     bind_io (login e c) (\<lambda>result.
                     return_io \<lparr>status = 200, body = SetupBody, cookie = snd result\<rparr>)) d'))" for c d'
    by (intro ev_bind_always createPasscode_ev login_ev) (simp_all add: leaf)
  have normal: "ev d' (snd (bind_io (login e c) (\<lambda>result.
                case fst result of
                  LoginFailure err \<Rightarrow> return_io (json 401 (ErrorBody err))
                | LoginSuccess adm \<Rightarrow>
                    return_io \<lparr>status = 200, body = LoginBody adm, cookie = snd result\<rparr>) d'))" for c d'
    by (intro ev_bind_always login_ev) (simp add: leaf split: login_result.split)
  have main: "ev d (snd (bind_io hasAnyPasscodes (\<lambda>hasPasscodes.
              if \<not> hasPasscodes then
                if \<not> six_digits c
                then return_io (json 400 (ErrorBody ''Passcode must be exactly 6 digits''))
                else bind_io (createPasscode e c (js ''Admin'') True) (\<lambda>_.
                     bind_io (login e c) (\<lambda>result.
                     return_io \<lparr>status = 200, body = SetupBody, cookie = snd result\<rparr>))
              else bind_io (login e c) (\<lambda>result.
                case fst result of
                  LoginFailure err \<Rightarrow> return_io (json 401 (ErrorBody err))
                | LoginSuccess adm \<Rightarrow>
                    return_io \<lparr>status = 200, body = LoginBody adm, cookie = snd result\<rparr>)) d))" for c
    by (rule ev_bind_neutral, rule hasAnyPasscodes_passcodes) (simp add: first_run normal leaf)
  show ?thesis
    unfolding login_POST_def
    by (rule ev_catch) (simp add: main leaf split: option.split jvalue.split)
qed

lemma passcodes_GET_ev: "ev d (snd (passcodes_GET e c d))"
  unfolding passcodes_GET_def
  apply (rule ev_catch)
  apply (rule ev_bind_neutral, rule getSession_passcodes)
  apply (simp add: leaf)
  apply (intro impI)
  apply (rule ev_bind_neutral, rule listPasscodes_passcodes)
  apply (simp add: leaf)
  done

lemma passcodes_POST_ev: "ev d (snd (passcodes_POST e c b d))"
  unfolding passcodes_POST_def
proof (rule ev_catch, rule ev_bind_neutral, rule getSession_passcodes)
  fix session d'
  assume g: "getSession e c d = (Inr session, d')"
  have create: "ev d' (snd (bind_io (createPasscode e s nm adm) (\<lambda>result. case result of
                   Failure err \<Rightarrow> return_io (json 400 (ErrorBody err))
                 | Success \<Rightarrow> return_io (json 200 SuccessBody)) d'))"
    if "\<not> not_admin session" for s nm adm
    by (intro ev_bind_always createPasscode_ev disjI2 getSession_admin_nonempty [OF g that])
       (simp add: leaf split: op_result.split)
  have other: "ev d' (snd (bind_io (return_io (Failure m)) (\<lambda>result. case result of
                   Failure err \<Rightarrow> return_io (json 400 (ErrorBody err))
                 | Success \<Rightarrow> return_io (json 200 SuccessBody)) d'))" for m
    by (simp add: bind_io_def leaf)
  show "ev d' (snd ((if not_admin session then return_io (json 401 (ErrorBody ''Unauthorized''))
          else case b of
            None \<Rightarrow> throw_io BodyError
          | Some payload \<Rightarrow>
              if \<not> truthy (bodyCode payload) \<or> falsy (bodyName payload)
              then return_io (json 400 (ErrorBody ''Code and name are required''))
              else bind_io
                (case bodyCode payload of
                   JString s \<Rightarrow>
                     createPasscode e s (the (bodyName payload))
                       (case bodyIsAdmin payload of None \<Rightarrow> False | Some a \<Rightarrow> a)
                 | JOther _ \<Rightarrow> return_io (Failure ''Passcode must be exactly 6 digits''))
                (\<lambda>result. case result of
                   Failure err \<Rightarrow> return_io (json 400 (ErrorBody err))
                 | Success \<Rightarrow> return_io (json 200 SuccessBody))) d'))"
  proof (cases "not_admin session")
    case True
    then show ?thesis by (simp add: leaf)
  next
    case False
    show ?thesis
      using False create [OF False] other
      by (simp add: leaf split: option.split jvalue.split)
  qed
qed

lemma passcode_DELETE_ev: "ev d (snd (passcode_DELETE e c i d))"
  unfolding passcode_DELETE_def
  apply (rule ev_catch)
  apply (rule ev_bind_neutral, rule getSession_passcodes)
  apply (simp add: leaf)
  apply (intro impI ev_bind_always deletePasscode_ev)
  apply (simp add: leaf split: op_result.split)
  done

lemma status_GET_ev: "ev d (snd (status_GET e c d))"
  unfolding status_GET_def
  apply (rule ev_catch)
  apply (rule ev_bind_neutral, rule hasAnyPasscodes_passcodes)
  apply (simp add: leaf)
  apply (intro impI)
  apply (rule ev_bind_neutral, rule getSession_passcodes)
  apply (simp add: leaf split: option.split)
  done

lemma handler_ev: "ev d (snd (handler e req d))"
  unfolding handler_def
  by (cases "call req")
     (simp_all add: login_POST_ev passcodes_GET_ev passcodes_POST_ev passcode_DELETE_ev status_GET_ev)

lemma lifted_handler_ev: "ev d (snd ((\<lambda>d. case handler e req d of (r, d') \<Rightarrow> (Inr r, d')) d))"
  by (cases "handler e req d") (use handler_ev [of d e req] in simp)

lemma validateRequest_passcodes: "passcodes (snd (validateRequest t e req d)) = passcodes d"
proof (cases "validateApiToken t req")
  case Valid
  then show ?thesis by (simp add: validateRequest_def return_io_def)
next
  case (Invalid r)
  show ?thesis
    using getSession_passcodes [of e "sessionCookie req" d] Invalid
    by (auto simp: validateRequest_def bind_io_def return_io_def split: prod.splits sum.splits)
qed

lemma serve_ev: "ev d (snd (serve t e req d))"
proof (cases "exempt (call req)")
  case True
  then show ?thesis using lifted_handler_ev [of d e req] by (simp add: serve_def)
next
  case False
  have "ev d (snd (bind_io (validateRequest t e req) (\<lambda>auth.
        case auth of
          Invalid err \<Rightarrow> return_io err
        | Valid \<Rightarrow> (\<lambda>d. case handler e req d of (r, d') \<Rightarrow> (Inr r, d'))) d))"
    apply (rule ev_bind_neutral, rule validateRequest_passcodes)
    subgoal for a d'
      using lifted_handler_ev [of d' e req] by (cases a) (simp_all add: leaf)
    done
  with False show ?thesis by (simp add: serve_def)
qed

lemma steps_ev: "steps d d' \<Longrightarrow> ev d d'"
proof (induction rule: steps.induct)
  case (steps_refl d)
  show ?case by (rule ev_refl)
next
  case (steps_serve d d' apiToken e req f)
  have "ev (d'\<lparr>faults := f\<rparr>) (snd (serve apiToken e req (d'\<lparr>faults := f\<rparr>)))"
    by (rule serve_ev)
  then show ?case using steps_serve.IH by (simp add: ev_def) (metis evolve_trans)
next
  case (steps_logout d d' c f)
  then show ?case by (simp add: ev_def logout_passcodes)
qed

lemma table_ok_iff: "table_ok d \<longleftrightarrow> passcodes d = [] \<or> has_admin (passcodes d)"
  by (auto simp: table_ok_def lastAdminOk_def has_admin_def)

lemma ev_table_ok: "ev d d' \<Longrightarrow> table_ok d \<Longrightarrow> table_ok d'"
  unfolding table_ok_iff ev_def
  using evolve_from_empty [of "passcodes d" "passcodes d'"] evolve_has_admin [of "passcodes d" "passcodes d'"]
  by blast

lemma ev_nonempty: "ev d d' \<Longrightarrow> table_ok d \<Longrightarrow> passcodes d \<noteq> [] \<Longrightarrow> passcodes d' \<noteq> []"
  unfolding table_ok_iff ev_def
  using evolve_has_admin [of "passcodes d" "passcodes d'"]
  by (auto simp: has_admin_def)

lemma table_ok_empty: "table_ok empty_db"
  by (simp add: table_ok_def lastAdminOk_def empty_db_def)

lemma logout_ev: "ev d (snd (logout c d))"
  by (rule ev_same) (rule logout_passcodes)

text \<open>
  Claim C1.  In every sequential execution from the empty store, with any requests, cookies,
  configuration, clock, generated ids and store faults, every reachable state is empty or
  holds an admin passcode (and ids stay unique).  Each operation preserves this on every store
  with unique ids: a request served through the middleware, the login route (first-run
  setup included), the create and delete routes, \<open>deletePasscode\<close>, \<open>login\<close> and
  \<open>logout\<close>; \<open>createPasscode\<close> does at its two call sites, where the new passcode is an
  admin (first run) or the table is not empty (the route has seen an admin session).
\<close>

theorem last_admin_invariant:
  "(steps empty_db d \<longrightarrow> lastAdminOk d \<and> distinct (map pid (passcodes d)))
   \<and> (distinct (map pid (passcodes d)) \<and> lastAdminOk d \<longrightarrow>
        lastAdminOk (snd (serve apiToken e req d))
      \<and> distinct (map pid (passcodes (snd (serve apiToken e req d))))
      \<and> lastAdminOk (snd (login_POST e b d))
      \<and> lastAdminOk (snd (passcodes_POST e c cb d))
      \<and> lastAdminOk (snd (passcode_DELETE e c i d))
      \<and> lastAdminOk (snd (deletePasscode i d))
      \<and> lastAdminOk (snd (login e s d))
      \<and> lastAdminOk (snd (logout c d))
      \<and> (adm \<or> passcodes d \<noteq> [] \<longrightarrow> lastAdminOk (snd (createPasscode e s nm adm d))))"
proof -
  have A: "steps empty_db d \<longrightarrow> lastAdminOk d \<and> distinct (map pid (passcodes d))"
  proof
    assume "steps empty_db d"
    then have "ev empty_db d" by (rule steps_ev)
    then have "table_ok d" using table_ok_empty by (rule ev_table_ok)
    then show "lastAdminOk d \<and> distinct (map pid (passcodes d))" by (simp add: table_ok_def)
  qed
  have B: "distinct (map pid (passcodes d)) \<and> lastAdminOk d \<longrightarrow>
        lastAdminOk (snd (serve apiToken e req d))
      \<and> distinct (map pid (passcodes (snd (serve apiToken e req d))))
      \<and> lastAdminOk (snd (login_POST e b d))
      \<and> lastAdminOk (snd (passcodes_POST e c cb d))
      \<and> lastAdminOk (snd (passcode_DELETE e c i d))
      \<and> lastAdminOk (snd (deletePasscode i d))
      \<and> lastAdminOk (snd (login e s d))
      \<and> lastAdminOk (snd (logout c d))
      \<and> (adm \<or> passcodes d \<noteq> [] \<longrightarrow> lastAdminOk (snd (createPasscode e s nm adm d)))"
  proof
    assume "distinct (map pid (passcodes d)) \<and> lastAdminOk d"
    then have ok: "table_ok d" by (simp add: table_ok_def)
    have k: "ev d d' \<Longrightarrow> lastAdminOk d' \<and> distinct (map pid (passcodes d'))" for d'
      using ev_table_ok [OF _ ok] by (simp add: table_ok_def)
    show "lastAdminOk (snd (serve apiToken e req d))
      \<and> distinct (map pid (passcodes (snd (serve apiToken e req d))))
      \<and> lastAdminOk (snd (login_POST e b d))
      \<and> lastAdminOk (snd (passcodes_POST e c cb d))
      \<and> lastAdminOk (snd (passcode_DELETE e c i d))
      \<and> lastAdminOk (snd (deletePasscode i d))
      \<and> lastAdminOk (snd (login e s d))
      \<and> lastAdminOk (snd (logout c d))
      \<and> (adm \<or> passcodes d \<noteq> [] \<longrightarrow> lastAdminOk (snd (createPasscode e s nm adm d)))"
      using k [OF serve_ev] k [OF login_POST_ev] k [OF passcodes_POST_ev] k [OF passcode_DELETE_ev]
        k [OF deletePasscode_ev] k [OF login_ev] k [OF logout_ev] k [OF createPasscode_ev]
      by blast
  qed
  show ?thesis by (intro conjI A B)
qed

lemma login_effect:
  "passcodes (snd (login e c d)) = passcodes d
   \<or> (\<exists>i. passcodes (snd (login e c d)) =
         map (\<lambda>p. if pid p = i then p\<lparr>lastUsedAt := Some (now e)\<rparr> else p) (passcodes d))"
  by (auto simp: login_def io_defs query_defs split: option.splits list.splits if_splits)

lemma hasAnyPasscodes_nonempty:
  assumes "passcodes d \<noteq> []"
  shows "fst (hasAnyPasscodes d) = Inr True \<or> fst (hasAnyPasscodes d) = Inl StoreError"
proof -
  obtain x xs where "passcodes d = x # xs" using assms by (cases "passcodes d") auto
  then show ?thesis
    by (auto simp: hasAnyPasscodes_def io_defs query_defs split: list.splits if_splits)
qed

lemma login_POST_normal:
  assumes "passcodes d \<noteq> []"
  shows "body (fst (login_POST e b d)) \<noteq> SetupBody
     \<and> (passcodes (snd (login_POST e b d)) = passcodes d
        \<or> (\<exists>i. passcodes (snd (login_POST e b d)) =
             map (\<lambda>p. if pid p = i then p\<lparr>lastUsedAt := Some (now e)\<rparr> else p) (passcodes d)))"
proof (cases b)
  case None
  then show ?thesis by (simp add: login_POST_def catch_io_def throw_io_def json_def)
next
  case (Some v)
  show ?thesis
  proof (cases v)
    case (JOther t)
    with Some show ?thesis by (simp add: login_POST_def catch_io_def return_io_def json_def)
  next
    case (JString c)
    show ?thesis
    proof (cases "c = []")
      case True
      with Some JString show ?thesis by (simp add: login_POST_def catch_io_def return_io_def json_def)
    next
      case False
      from hasAnyPasscodes_nonempty [OF assms] show ?thesis
      proof
        assume "fst (hasAnyPasscodes d) = Inl StoreError"
        then obtain d1 where h: "hasAnyPasscodes d = (Inl StoreError, d1)"
          by (cases "hasAnyPasscodes d") auto
        have "passcodes d1 = passcodes d" using hasAnyPasscodes_passcodes [of d] h by simp
        with Some JString False h show ?thesis
          by (simp add: login_POST_def catch_io_def bind_io_def json_def)
      next
        assume "fst (hasAnyPasscodes d) = Inr True"
        then obtain d1 where h: "hasAnyPasscodes d = (Inr True, d1)"
          by (cases "hasAnyPasscodes d") auto
        have p1: "passcodes d1 = passcodes d" using hasAnyPasscodes_passcodes [of d] h by simp
        obtain r d2 where l: "login e c d1 = (r, d2)" by (cases "login e c d1") auto
        have eff: "passcodes d2 = passcodes d
          \<or> (\<exists>i. passcodes d2 =
               map (\<lambda>p. if pid p = i then p\<lparr>lastUsedAt := Some (now e)\<rparr> else p) (passcodes d))"
          using login_effect [of e c d1] l p1 by simp
        have "login_POST e b d =
           (case r of Inl x \<Rightarrow> json 500 (ErrorBody ''Login failed'')
            | Inr result \<Rightarrow> (case fst result of
                  LoginFailure err \<Rightarrow> json 401 (ErrorBody err)
                | LoginSuccess adm \<Rightarrow> \<lparr>status = 200, body = LoginBody adm, cookie = snd result\<rparr>), d2)"
          using Some JString False h l
          by (simp add: login_POST_def catch_io_def bind_io_def return_io_def
              split: sum.splits login_result.splits)
        then show ?thesis using eff
          by (auto simp: json_def split: sum.splits login_result.splits)
      qed
    qed
  qed
qed

text \<open>
  Claim C7.  Once an execution from the empty store has reached a state with a passcode row,
  every later state has one too; there \<open>hasAnyPasscodes\<close> returns true whenever it
  returns, and a call of the login route never answers with the first-run response and
  creates no passcode: ids, admin flags and names of the table are as before.
\<close>

theorem first_run_branch_never_again:
  assumes "steps empty_db d" "passcodes d \<noteq> []" "steps d d'"
  shows "passcodes d' \<noteq> []
     \<and> fst (hasAnyPasscodes (d'\<lparr>faults := []\<rparr>)) = Inr True
     \<and> fst (hasAnyPasscodes (d'\<lparr>faults := f\<rparr>)) \<noteq> Inr False
     \<and> body (fst (login_POST e b (d'\<lparr>faults := f\<rparr>))) \<noteq> SetupBody
     \<and> map pid (passcodes (snd (login_POST e b (d'\<lparr>faults := f\<rparr>)))) = map pid (passcodes d')
     \<and> map isAdmin (passcodes (snd (login_POST e b (d'\<lparr>faults := f\<rparr>)))) = map isAdmin (passcodes d')
     \<and> map name (passcodes (snd (login_POST e b (d'\<lparr>faults := f\<rparr>)))) = map name (passcodes d')"
proof -
  have "ev empty_db d" using assms(1) by (rule steps_ev)
  then have ok: "table_ok d" using table_ok_empty by (rule ev_table_ok)
  have "ev d d'" using assms(3) by (rule steps_ev)
  then have ne: "passcodes d' \<noteq> []" using ok assms(2) by (rule ev_nonempty)
  then have nef: "passcodes (d'\<lparr>faults := g\<rparr>) \<noteq> []" for g by simp
  have h1: "fst (hasAnyPasscodes (d'\<lparr>faults := []\<rparr>)) = Inr True"
    using hasAnyPasscodes_nonempty [OF nef [of "[]"]]
    by (auto simp: hasAnyPasscodes_def io_defs query_defs)
  have h2: "fst (hasAnyPasscodes (d'\<lparr>faults := f\<rparr>)) \<noteq> Inr False"
    using hasAnyPasscodes_nonempty [OF nef [of f]] by auto
  have names: "map name (map (\<lambda>p. if pid p = i then p\<lparr>lastUsedAt := t\<rparr> else p) ps) = map name ps"
    for i t and ps :: "passcode list"
    by (induction ps) auto
  from login_POST_normal [OF nef [of f], of e b]
  have l: "body (fst (login_POST e b (d'\<lparr>faults := f\<rparr>))) \<noteq> SetupBody"
    and eff: "passcodes (snd (login_POST e b (d'\<lparr>faults := f\<rparr>))) = passcodes d'
        \<or> (\<exists>i. passcodes (snd (login_POST e b (d'\<lparr>faults := f\<rparr>))) =
             map (\<lambda>p. if pid p = i then p\<lparr>lastUsedAt := Some (now e)\<rparr> else p) (passcodes d'))"
    by simp_all
  from eff have m: "map pid (passcodes (snd (login_POST e b (d'\<lparr>faults := f\<rparr>)))) = map pid (passcodes d')
     \<and> map isAdmin (passcodes (snd (login_POST e b (d'\<lparr>faults := f\<rparr>)))) = map isAdmin (passcodes d')
     \<and> map name (passcodes (snd (login_POST e b (d'\<lparr>faults := f\<rparr>)))) = map name (passcodes d')"
    by (elim disjE exE) (simp_all only: touch_pids touch_admins names)
  show ?thesis using ne h1 h2 l m by (intro conjI) simp_all
qed

section \<open>The theorems on the first run\<close>

lemmas example_defs = first_env_def later_env_def first_request_def first_admin_def
  second_admin_def first_session_def db_after_setup_def db_two_admins_def token_request_def
  create_request_def

lemma js_simps:
  "js ''tok1'' \<noteq> js ''tok2''" "js ''tok1'' \<noteq> []" "js ''T'' \<noteq> []"
  "js ''123456'' \<noteq> []" "js ''Bearer X'' \<noteq> js ''Bearer T''"
  by (simp_all add: js_def)

lemma text_ok_simps:
  "text_ok (js ''tok1'')" "text_ok (js ''tok2'')" "text_ok (js ''Root'')" "\<not> text_ok [0]"
  by (simp_all add: text_ok_def js_def)

lemma well_formed_tok1: "well_formed (js ''tok1'')"
  by (simp add: js_def high_surrogate_def low_surrogate_def)

lemma uuid_bytes_numeral:
  "uuid_bytes (numeral k) (a # b # src) =
     (case (hex_value a, hex_value b) of
        (Some x, Some y) \<Rightarrow>
          (case uuid_bytes (pred_numeral k)
                  (if 0 < pred_numeral k \<and> even (pred_numeral k) \<and> take 1 src = [45]
                   then drop 1 src else src) of
             None \<Rightarrow> None
           | Some (bytes, rest) \<Rightarrow> Some ((16 * x + y) # bytes, rest))
      | _ \<Rightarrow> None)"
  "uuid_bytes (numeral k) [] = None"
  "uuid_bytes (numeral k) [a] = None"
  by (simp_all add: numeral_eq_Suc)

lemma uuid_bytes_1:
  "uuid_bytes 1 (a # b # src) =
     (case (hex_value a, hex_value b) of
        (Some x, Some y) \<Rightarrow> Some ([16 * x + y], src)
      | _ \<Rightarrow> None)"
  "uuid_bytes 1 [] = None"
  "uuid_bytes 1 [a] = None"
  by (simp_all split: option.splits)

lemmas uuid_eval = parse_uuid_def js_def hex_value_def uuid_bytes_numeral uuid_bytes_1

lemma parse_first_admin_id: "parse_uuid first_admin_id = Some 1"
  by (simp add: uuid_eval first_admin_id_def)

lemma parse_unknown_id: "parse_uuid unknown_id = Some 255"
  by (simp add: uuid_eval unknown_id_def)

lemma parse_zz: "parse_uuid (js ''zz'') = None"
  by (simp add: uuid_eval)

lemma six_digits_123456: "six_digits (js ''123456'')"
  by (simp add: six_digits_def is_digit_def js_def)

lemma first_run_setup:
  "serve None first_env first_request empty_db =
     (Inr \<lparr>status = 200, body = SetupBody,
           cookie = SetCookie (js ''tok1'') (5000 + SESSION_DURATION_MS)\<rparr>, db_after_setup)"
  using six_digits_123456 js_simps text_ok_simps text_ok_Admin
  by (simp add: serve_def exempt_def handler_def login_POST_def catch_io_def hasAnyPasscodes_def
      createPasscode_def login_def io_defs query_defs example_defs empty_db_def)

lemma hashCode_123456: "hashCode (js ''123456'') = ''5441bfaf''"
  by (simp add: hash_eval)

lemma hashCode_654321: "hashCode (js ''654321'') = ''37411c8e''"
  by (simp add: hash_eval)

lemma six_digits_654321: "six_digits (js ''654321'')"
  by (simp add: six_digits_def is_digit_def js_def)

lemma admin_session_found:
  "getSession later_env (Some (js ''tok1'')) db_after_setup =
     (Inr (Some \<lparr>authenticated = True, infoIsAdmin = True, infoName = js ''Admin''\<rparr>), db_after_setup)"
  using js_simps text_ok_simps
  by (simp add: getSession_nofault falsy_def join_rows_def example_defs SESSION_DURATION_MS_def)

lemma second_admin_created:
  "serve None later_env create_request db_after_setup = (Inr (json 200 SuccessBody), db_two_admins)"
proof -
  have c: "createPasscode later_env (js ''654321'') (js ''Root'') True db_after_setup
             = (Inr Success, db_two_admins)"
    using six_digits_654321 text_ok_simps hashCode_123456 hashCode_654321
    by (simp add: createPasscode_def io_defs query_defs db_after_setup_def db_two_admins_def
        first_admin_def second_admin_def later_env_def)
  have v: "validateRequest None later_env create_request db_after_setup = (Inr Valid, db_after_setup)"
    by (simp add: validateRequest_def validateApiToken_def falsy_def return_io_def)
  have "js ''Root'' \<noteq> []" "js ''654321'' \<noteq> []" by (simp_all add: js_def)
  then have p: "passcodes_POST later_env (Some (js ''tok1''))
          (Some \<lparr>bodyCode = JString (js ''654321''), bodyName = Some (js ''Root''),
                                  bodyIsAdmin = Some True\<rparr>) db_after_setup
        = (json 200 SuccessBody, db_two_admins)"
    using admin_session_found c
    by (simp add: passcodes_POST_def catch_io_def bind_io_def return_io_def not_admin_def
        truthy_def falsy_def)
  show ?thesis using v p
    by (simp add: serve_def exempt_def handler_def bind_io_def create_request_def)
qed

lemma steps_second_admin: "steps db_after_setup db_two_admins"
proof -
  have "steps db_after_setup
     (snd (serve None later_env create_request (db_after_setup\<lparr>faults := []\<rparr>)))"
    by (rule steps_serve [OF steps_refl])
  moreover have "db_after_setup\<lparr>faults := []\<rparr> = db_after_setup"
    by (simp add: db_after_setup_def)
  ultimately show ?thesis by (simp add: second_admin_created)
qed

lemma steps_first_run: "steps empty_db db_after_setup"
proof -
  have "steps empty_db (snd (serve None first_env first_request (empty_db\<lparr>faults := []\<rparr>)))"
    by (rule steps_serve [OF steps_refl])
  moreover have "empty_db\<lparr>faults := []\<rparr> = empty_db" by (simp add: empty_db_def)
  ultimately show ?thesis by (simp add: first_run_setup)
qed

theorem deletePasscode_last_admin_guard_witness:
  "parse_uuid first_admin_id = Some (pid first_admin)
   \<and> deletePasscode first_admin_id db_after_setup =
     (Inr (Failure ''Cannot delete the last admin passcode''), db_after_setup)
   \<and> fst (deletePasscode first_admin_id db_two_admins) = Inr Success
   \<and> passcodes (snd (deletePasscode first_admin_id db_two_admins)) = [second_admin]"
proof -
  have i: "parse_uuid first_admin_id = Some (pid first_admin)"
    by (simp add: parse_first_admin_id first_admin_def)
  have one: "faults db_after_setup = []" "distinct (map pid (passcodes db_after_setup))"
    "first_admin \<in> set (passcodes db_after_setup)"
    by (simp_all add: db_after_setup_def)
  have two: "faults db_two_admins = []" "distinct (map pid (passcodes db_two_admins))"
    "first_admin \<in> set (passcodes db_two_admins)"
    by (simp_all add: db_two_admins_def first_admin_def second_admin_def)
  show ?thesis
    using i deletePasscode_last_admin_guard [OF one i] deletePasscode_last_admin_guard [OF two i]
    by (simp add: db_after_setup_def db_two_admins_def first_admin_def second_admin_def)
qed

text \<open>
  Claim C9 as the specification states it fails for an id that is not the text of a uuid:
  \<open>zz\<close> matches no passcode row, and the lookup throws instead of returning success.
\<close>

theorem deletePasscode_unknown_id_counterexample:
  "faults db_after_setup = []
   \<and> parse_uuid (js ''zz'') = None
   \<and> deletePasscode (js ''zz'') db_after_setup = (Inl StoreError, db_after_setup)"
  using parse_zz
  by (simp add: deletePasscode_def io_defs query_defs db_after_setup_def)

theorem deletePasscode_unknown_id_witness:
  "faults db_after_setup = []
   \<and> parse_uuid unknown_id = Some 255
   \<and> passcodes db_after_setup = [first_admin]
   \<and> pid first_admin \<noteq> 255
   \<and> deletePasscode unknown_id db_after_setup = (Inr Success, db_after_setup)
   \<and> parse_uuid (js ''zz'') = None
   \<and> getSession later_env (Some (js ''tok1'')) db_after_setup =
       (Inr (Some \<lparr>authenticated = True, infoIsAdmin = True, infoName = js ''Admin''\<rparr>),
        db_after_setup)
   \<and> passcode_DELETE later_env (Some (js ''tok1'')) (js ''zz'') db_after_setup
       = (json 500 (ErrorBody ''Failed to delete passcode''), db_after_setup)"
proof -
  have h: "faults db_after_setup = []" by (simp add: example_defs)
  have k: "passcodes db_after_setup = [first_admin]" "pid first_admin \<noteq> 255"
    by (simp_all add: example_defs)
  have a: "\<not> not_admin (Some \<lparr>authenticated = True, infoIsAdmin = True,
                                infoName = js ''Admin''\<rparr>)"
    by (simp add: not_admin_def)
  show ?thesis
    using h k a parse_unknown_id parse_zz admin_session_found
      deletePasscode_unknown_id [OF h, where i = unknown_id and u = 255]
      deletePasscode_unknown_id [OF h, where i = "js ''zz''" and e = later_env
        and c = "Some (js ''tok1'')" and ?d0.0 = db_after_setup
        and session = "Some \<lparr>authenticated = True, infoIsAdmin = True,
                               infoName = js ''Admin''\<rparr>"]
    by simp
qed

text \<open>
  Claim C5 as the specification states it fails for a cookie whose token is the single code
  unit 0: no session row matches it, and the lookup throws instead of returning absent.
\<close>

theorem getSession_valid_iff_counterexample:
  "faults db_after_setup = []
   \<and> join_rows db_after_setup [0] (now later_env) = []
   \<and> getSession later_env (Some [0]) db_after_setup = (Inl StoreError, db_after_setup)"
  using text_ok_simps js_simps
  by (simp add: getSession_nofault falsy_def join_rows_def example_defs js_def)

theorem getSession_valid_iff_witness:
  "faults db_after_setup = []
   \<and> text_ok (js ''tok1'')
   \<and> well_formed (js ''tok1'')
   \<and> fst (getSession (first_env\<lparr>now := 5000 + SESSION_DURATION_MS\<rparr>) (Some (js ''tok1''))
          db_after_setup) = Inr None
   \<and> fst (getSession (first_env\<lparr>now := 5000 + SESSION_DURATION_MS - 1000\<rparr>) (Some (js ''tok1''))
          db_after_setup)
       = Inr (Some \<lparr>authenticated = True, infoIsAdmin = True, infoName = js ''Admin''\<rparr>)
   \<and> fst (getSession (first_env\<lparr>now := 5000 + SESSION_DURATION_MS + 1000\<rparr>) (Some (js ''tok1''))
          db_after_setup) = Inr None
   \<and> fst (getSession first_env None db_after_setup) = Inr None
   \<and> \<not> text_ok [0]
   \<and> getSession first_env (Some [0]) db_after_setup = (Inl StoreError, db_after_setup)"
proof -
  have h: "faults db_after_setup = []" by (simp add: example_defs)
  have z: "getSession first_env (Some [0]) db_after_setup = (Inl StoreError, db_after_setup)"
    using text_ok_simps getSession_valid_iff [OF h, of "Some [0]" first_env]
    by (simp add: falsy_def)
  show ?thesis
    using h z js_simps text_ok_simps well_formed_tok1
      getSession_valid_iff [OF h, of "Some (js ''tok1'')" "first_env\<lparr>now := 5000 + SESSION_DURATION_MS\<rparr>"]
    by (simp add: getSession_nofault falsy_def join_rows_def example_defs)
qed

theorem validateRequest_dual_mode_witness:
  "validateRequest (Some (js ''T'')) later_env
      (token_request PasscodesGET (Some (js ''Bearer T'')) None) db_after_setup
     = (Inr Valid, db_after_setup)
   \<and> validateRequest (Some (js ''T'')) later_env
      (token_request PasscodesGET (Some (js ''Bearer X'')) None) db_after_setup
     = (Inr (Invalid (json 401 (ErrorBody
          ''Unauthorized - Please provide a valid API token or login''))), db_after_setup)
   \<and> validateRequest (Some (js ''T'')) later_env
      (token_request PasscodesGET (Some (js ''Bearer X'')) (Some (js ''tok1''))) db_after_setup
     = (Inr Valid, db_after_setup)
   \<and> validateRequest None later_env (token_request PasscodesGET None None) db_after_setup
     = (Inr Valid, db_after_setup)"
proof -
  have n: "faults db_after_setup = []" by (simp add: example_defs)
  have b: "js ''Bearer '' @ js ''T'' = js ''Bearer T''" by (simp add: js_def)
  have g1: "getSession later_env None db_after_setup = (Inr None, db_after_setup)"
    by (simp add: getSession_nofault [OF n] falsy_def)
  show ?thesis
    using validateRequest_dual_mode [where apiToken = "Some (js ''T'')" and T = "js ''T''" and e = later_env
        and d = db_after_setup and req = "token_request PasscodesGET (Some (js ''Bearer T'')) None"]
      validateRequest_dual_mode [where apiToken = "Some (js ''T'')" and T = "js ''T''" and e = later_env
        and d = db_after_setup and req = "token_request PasscodesGET (Some (js ''Bearer X'')) None"]
      validateRequest_dual_mode [where apiToken = "Some (js ''T'')" and T = "js ''T''" and e = later_env
        and d = db_after_setup
        and req = "token_request PasscodesGET (Some (js ''Bearer X'')) (Some (js ''tok1''))"]
      validateRequest_dual_mode [where apiToken = None and e = later_env
        and d = db_after_setup and req = "token_request PasscodesGET None None"]
      b g1 admin_session_found js_simps
    by (simp add: token_request_def falsy_def)
qed

theorem passcode_management_needs_admin_session_witness:
  "getSession later_env None db_after_setup = (Inr None, db_after_setup)
   \<and> not_admin None
   \<and> passcodes_GET later_env None db_after_setup
       = (json 401 (ErrorBody ''Unauthorized''), db_after_setup)
   \<and> passcode_DELETE later_env None first_admin_id db_after_setup
       = (json 401 (ErrorBody ''Unauthorized''), db_after_setup)
   \<and> validateApiToken (Some (js ''T''))
        (token_request (PasscodeDELETE first_admin_id) (Some (js ''Bearer T'')) None) = Valid
   \<and> fst (serve (Some (js ''T'')) later_env
        (token_request (PasscodeDELETE first_admin_id) (Some (js ''Bearer T'')) None) db_after_setup)
       = Inr (json 401 (ErrorBody ''Unauthorized''))"
proof -
  have n: "faults db_after_setup = []" by (simp add: example_defs)
  have g: "getSession later_env None db_after_setup = (Inr None, db_after_setup)"
    by (simp add: getSession_nofault [OF n] falsy_def)
  have a: "not_admin None" by (simp add: not_admin_def)
  have b: "js ''Bearer '' @ js ''T'' = js ''Bearer T''" by (simp add: js_def)
  have v: "validateApiToken (Some (js ''T''))
        (token_request (PasscodeDELETE first_admin_id) (Some (js ''Bearer T'')) None) = Valid"
    by (simp add: validateApiToken_Valid_iff token_request_def b)
  show ?thesis
    using g a v passcode_management_needs_admin_session [OF g, where i = first_admin_id
        and apiToken = "Some (js ''T'')"
        and req = "token_request (PasscodeDELETE first_admin_id) (Some (js ''Bearer T'')) None"]
    by (simp add: token_request_def)
qed



theorem last_admin_invariant_witness:
  "steps empty_db db_after_setup
   \<and> passcodes db_after_setup \<noteq> []
   \<and> lastAdminOk db_after_setup
   \<and> distinct (map pid (passcodes db_after_setup))
   \<and> lastAdminOk (snd (passcode_DELETE later_env (Some (js ''tok1'')) first_admin_id db_after_setup))
   \<and> lastAdminOk (snd (deletePasscode first_admin_id db_after_setup))"
proof -
  have n: "passcodes db_after_setup \<noteq> []" by (simp add: db_after_setup_def)
  show ?thesis
    using steps_first_run n
      last_admin_invariant [where d = db_after_setup and e = later_env
        and c = "Some (js ''tok1'')" and i = first_admin_id]
    by simp
qed

theorem first_run_branch_never_again_witness:
  "steps empty_db db_after_setup
   \<and> passcodes db_after_setup \<noteq> []
   \<and> steps db_after_setup db_two_admins
   \<and> passcodes db_two_admins \<noteq> []
   \<and> body (fst (login_POST later_env (Some (JString (js ''999999'')))
              (db_two_admins\<lparr>faults := []\<rparr>))) \<noteq> SetupBody"
proof -
  have n: "passcodes db_after_setup \<noteq> []" by (simp add: db_after_setup_def)
  have s: "steps db_after_setup db_two_admins" by (rule steps_second_admin)
  show ?thesis
    using steps_first_run n s
      first_run_branch_never_again [OF steps_first_run n s, where f = "[]" and e = later_env
        and b = "Some (JString (js ''999999''))"]
    by simp
qed

end
